theory Spec2Isabelle
  imports Complex_Main "HOL-Library.Word"
begin

unbundle bit_operations_syntax

chapter \<open>The program\<close>

section \<open>Shared numeric utilities (engine/utils/math.js)\<close>

text \<open>
  JavaScript numbers are modelled as \<^typ>\<open>real\<close>: the development verifies the
  arithmetic of the effect engine, not the rounding of IEEE doubles.  The bit operations
  of \<open>mulberry32\<close> are the exception: JavaScript evaluates them on 32-bit integers, and
  they are modelled on \<^typ>\<open>int\<close> with the conversions \<open>ToInt32\<close> and \<open>ToUint32\<close>
  written out.
\<close>

definition lerp :: "real \<Rightarrow> real \<Rightarrow> real \<Rightarrow> real" where
  "lerp a b t = a + (b - a) * t"

definition clamp :: "real \<Rightarrow> real \<Rightarrow> real \<Rightarrow> real" where
  "clamp val lo hi = min (max val lo) hi"

subsection \<open>The seeded generator \<open>mulberry32\<close>\<close>

text \<open>\<open>ToInt32\<close>: the value modulo \<open>2^32\<close>, read as two's complement.\<close>

definition toInt32 :: "int \<Rightarrow> int" where
  "toInt32 x = signed_take_bit 31 x"

text \<open>\<open>ToUint32\<close>: the value modulo \<open>2^32\<close>.\<close>

definition toUint32 :: "int \<Rightarrow> int" where
  "toUint32 x = take_bit 32 x"

text \<open>\<open>Math.imul(a, b)\<close>: the low 32 bits of the product, signed.\<close>

definition imul :: "int \<Rightarrow> int \<Rightarrow> int" where
  "imul a b = toInt32 (toInt32 a * toInt32 b)"

text \<open>\<open>a >>> n\<close>: the unsigned right shift.\<close>

definition ushr :: "int \<Rightarrow> nat \<Rightarrow> int" where
  "ushr a n = drop_bit n (toUint32 a)"

text \<open>\<open>a ^ b\<close> and \<open>a | b\<close>: both operands are converted with \<open>ToInt32\<close>.\<close>

definition bxor :: "int \<Rightarrow> int \<Rightarrow> int" where
  "bxor a b = toInt32 (toInt32 a XOR toInt32 b)"

definition bor :: "int \<Rightarrow> int \<Rightarrow> int" where
  "bor a b = toInt32 (toInt32 a OR toInt32 b)"

text \<open>
  \<open>mulberry32(seed)\<close> returns a closure over the variable \<open>s\<close>, initialised to
  \<open>seed | 0\<close>.  The closure is modelled by its state: \<open>mulberry32 seed\<close> is the initial
  value of \<open>s\<close>, and \<open>mulberry32_next s\<close> is one call, returning the number produced
  and the new value of \<open>s\<close>.
\<close>

definition mulberry32 :: "int \<Rightarrow> int" where
  "mulberry32 seed = bor seed 0"

definition mulberry32_next :: "int \<Rightarrow> real \<times> int" where
  "mulberry32_next s0 =
     (let s = bor (s0 + 0x6d2b79f5) 0;
          t = imul (bxor s (ushr s 15)) (bor s 1);
          t = bxor t (t + imul (bxor t (ushr t 7)) (bor t 61))
      in (real_of_int (ushr (bxor t (ushr t 14)) 0) / 4294967296, s))"

text \<open>The first \<open>n\<close> numbers the closure produces from state \<open>s\<close>.\<close>

fun mulberry32_take :: "nat \<Rightarrow> int \<Rightarrow> real list" where
  "mulberry32_take 0 s = []"
| "mulberry32_take (Suc n) s =
     (case mulberry32_next s of (x, s') \<Rightarrow> x # mulberry32_take n s')"

text \<open>
  The documented recipe, written from the specification's words on 32-bit unsigned
  machine words with wrap-around: \<open>s += 0x6D2B79F5; t = (s ^ (s>>15)) * (s | 1);
  t ^= t + (t ^ (t>>7)) * (t | 61); result = (t ^ (t>>14)) / 2^32\<close>.
\<close>

definition recipe_next :: "32 word \<Rightarrow> real \<times> 32 word" where
  "recipe_next s0 =
     (let s = s0 + 0x6D2B79F5;
          t = (s XOR drop_bit 15 s) * (s OR 1);
          t = t XOR (t + (t XOR drop_bit 7 t) * (t OR 61))
      in (real (unat (t XOR drop_bit 14 t)) / 2 ^ 32, s))"

fun recipe_take :: "nat \<Rightarrow> 32 word \<Rightarrow> real list" where
  "recipe_take 0 s = []"
| "recipe_take (Suc n) s =
     (case recipe_next s of (x, s') \<Rightarrow> x # recipe_take n s')"

subsection \<open>The bilinear sampler\<close>

text \<open>
  The brightness grid is an array of rows.  \<open>cell g y x\<close> is the read \<open>g[y][x]\<close>:
  JavaScript yields \<open>undefined\<close> outside an array, so that a missing row raises a
  \<open>TypeError\<close> and a missing column turns the sample into \<open>NaN\<close>; both are the
  result \<open>None\<close> here.  The indices \<open>x0\<close> and \<open>y0\<close> come from \<open>Math.floor\<close> and
  can be negative, hence \<^typ>\<open>int\<close>.
\<close>

definition cell :: "real list list \<Rightarrow> int \<Rightarrow> int \<Rightarrow> real option" where
  "cell g y x =
     (if 0 \<le> y \<and> y < int (length g) \<and> 0 \<le> x \<and> x < int (length (g ! nat y))
      then Some (g ! nat y ! nat x) else None)"

definition sampleBilinear :: "real list list \<Rightarrow> nat \<Rightarrow> nat \<Rightarrow> real \<Rightarrow> real \<Rightarrow> real option" where
  "sampleBilinear g cols rows u v =
     (let x = u * (real cols - 1);
          y = v * (real rows - 1);
          x0 = \<lfloor>x\<rfloor>;
          y0 = \<lfloor>y\<rfloor>;
          x1 = min (x0 + 1) (int cols - 1);
          y1 = min (y0 + 1) (int rows - 1);
          fx = x - of_int x0;
          fy = y - of_int y0
      in case (cell g y0 x0, cell g y0 x1, cell g y1 x0, cell g y1 x1) of
           (Some g00, Some g01, Some g10, Some g11) \<Rightarrow>
             Some (g00 * (1 - fx) * (1 - fy) + g01 * fx * (1 - fy)
                   + g10 * (1 - fx) * fy + g11 * fx * fy)
         | _ \<Rightarrow> None)"

text \<open>A grid of \<open>rows\<close> rows of \<open>cols\<close> cells each, with at least one cell.\<close>

definition wf_grid :: "real list list \<Rightarrow> nat \<Rightarrow> nat \<Rightarrow> bool" where
  "wf_grid g cols rows \<longleftrightarrow>
     1 \<le> cols \<and> 1 \<le> rows \<and> length g = rows \<and> (\<forall>row \<in> set g. length row = cols)"

section \<open>Data model\<close>

text \<open>
  What a module call can do other than return: read outside the grid (\<open>OutOfBounds\<close>:
  the \<open>undefined\<close> read raises a \<open>TypeError\<close> or poisons the arithmetic with \<open>NaN\<close>),
  compute with a number that is not a real (\<open>NotANumber\<close>: a division \<open>0/0\<close>, a
  non-integral power of a negative base or an infinite count), run its lattice loop
  without end (\<open>NonTerminating\<close>), or ask for a typed array of infinite or negative
  length (\<open>RangeError\<close>).
\<close>

datatype failure = OutOfBounds | NotANumber | NonTerminating | RangeError

text \<open>The sampler's result: the brightness grid with its dimensions.\<close>

record sampleData =
  grid :: "real list list"
  gridCols :: nat
  gridRows :: nat
  aspect :: real
  svgWidth :: real
  svgHeight :: real

text \<open>
  What is drawn: the SVG elements of a static document, or the canvas paths of one
  animation frame.  Coordinates are the numbers the module computes, before
  \<open>toFixed\<close> prints them into the SVG text.  A segment carries its stroke width, which
  for a static \<open>path\<close> element is the \<open>stroke-width\<close> attribute shared by all its
  segments.  \<open>Star cx cy scale cpDist\<close> is the four-pointed glyph of Star Glint, drawn
  through its tips at distance \<open>scale\<close> and its control points at distance \<open>cpDist\<close>.
\<close>

datatype prim =
    Line real real real real real
  | Ellipse real real real real
  | Circle real real real
  | Star real real real real

text \<open>A picture: the fill or stroke colour and the primitives in drawing order.\<close>

record picture =
  colour :: string
  prims :: "prim list"

text \<open>
  \<open>for (let i = 0; i < n; i++)\<close> with a number \<open>n\<close> that need not be whole: the
  values of \<open>i\<close> in order.
\<close>

definition indices :: "real \<Rightarrow> nat list" where
  "indices n = [0..<nat \<lceil>n\<rceil>]"

text \<open>
  The normalised lattice coordinate, written \<open>n > 1 ? i / (n - 1) : 0.5\<close> at every
  call site.
\<close>

definition unitCoord :: "real \<Rightarrow> nat \<Rightarrow> real" where
  "unitCoord n i = (if n > 1 then real i / (n - 1) else 0.5)"

text \<open>
  An object spread \<open>{...defaults, ...params}\<close> takes each key from \<open>params\<close> when it
  is there and from the defaults otherwise.
\<close>

definition override :: "'a \<Rightarrow> 'a option \<Rightarrow> 'a" where
  "override d p = (case p of None \<Rightarrow> d | Some v \<Rightarrow> v)"

text \<open>
  Loops whose body can fail: the results of the bodies in order, or the first failure.
\<close>

fun collect :: "('a \<Rightarrow> failure + 'b list) \<Rightarrow> 'a list \<Rightarrow> failure + 'b list" where
  "collect f [] = Inr []"
| "collect f (x # xs) =
     (case f x of
        Inl e \<Rightarrow> Inl e
      | Inr ys \<Rightarrow> (case collect f xs of Inl e \<Rightarrow> Inl e | Inr zs \<Rightarrow> Inr (ys @ zs)))"

text \<open>\<open>1 - sampleBilinear(grid, gridCols, gridRows, u, v)\<close>.\<close>

definition darknessAt :: "sampleData \<Rightarrow> real \<Rightarrow> real \<Rightarrow> failure + real" where
  "darknessAt sd u v =
     (case sampleBilinear (grid sd) (gridCols sd) (gridRows sd) u v of
        None \<Rightarrow> Inl OutOfBounds
      | Some brightness \<Rightarrow> Inr (1 - brightness))"

section \<open>Vertical Lines and Horizontal Lines\<close>

text \<open>
  Both line effects have the same parameter keys.  \<open>lines_params\<close> is a complete
  parameter object, \<open>lines_overrides\<close> what a caller passes: every key may be missing.
  The key \<open>rows\<close> is \<open>null\<close> by default (\<open>None\<close>).
\<close>

record lines_params =
  ln_rows :: "real option"
  ln_maxLength :: real
  ln_minLength :: real
  ln_minStroke :: real
  ln_maxStroke :: real
  ln_speed :: real
  ln_waveFreq :: real
  ln_color :: string





subsection \<open>Vertical Lines, static (engine/effects/vertical-lines.js)\<close>



subsection \<open>Vertical Lines, animated (animate/effects/vertical-lines-anim.js)\<close>


text \<open>
  An entry of \<open>colMeta\<close> (or of \<open>rowMeta\<close> in Horizontal Lines): the line's fixed
  coordinate (\<open>cx\<close>, or \<open>y\<close>), and where its segments lie in the flat array \<open>segData\<close>.
\<close>

record segMeta =
  sm_pos :: real
  sm_segOffset :: nat
  sm_segCount :: nat

record lines_state =
  ls_meta :: "segMeta list"
  ls_segData :: "real list"
  ls_count :: real
  ls_cell :: real
  ls_outputWidth :: real
  ls_outputHeight :: real
  ls_params :: lines_params



text \<open>
  A read \<open>segData[i]\<close>; outside the array it is \<open>undefined\<close>.
\<close>

definition segAt :: "real list \<Rightarrow> nat \<Rightarrow> failure + real" where
  "segAt segData i = (if i < length segData then Inr (segData ! i) else Inl OutOfBounds)"


subsection \<open>Horizontal Lines, static (engine/effects/horizontal-lines.js)\<close>



subsection \<open>Horizontal Lines, animated (animate/effects/horizontal-lines-anim.js)\<close>



definition hla_drawFrame :: "lines_state \<Rightarrow> real \<Rightarrow> failure + picture" where
  "hla_drawFrame animState t =
     (let params = ls_params animState;
          segData = ls_segData animState;
          safeMaxStroke = max (ln_minStroke params) (ln_maxStroke params);
          safeMinStroke = min (ln_minStroke params) safeMaxStroke;
          maxStrokeByCell = ls_cell animState * 1.35;
          effectiveMaxStroke = min safeMaxStroke maxStrokeByCell;
          effectiveMinStroke = min safeMinStroke effectiveMaxStroke
      in map_sum id (\<lambda>ps. \<lparr> colour = ln_color params, prims = ps \<rparr>)
           (collect (\<lambda>r.
              if r < length (ls_meta animState) then
                (let meta = ls_meta animState ! r
                 in if sm_segCount meta = 0 then Inr []
                    else (let wave = 0.5 + 0.5 * sin (t * ln_speed params - real r * ln_waveFreq params);
                              strokeW = lerp effectiveMinStroke effectiveMaxStroke wave;
                              offset = sm_segOffset meta;
                              y = sm_pos meta
                          in collect (\<lambda>s.
                               case segAt segData (offset + s * 2) of
                                 Inl e \<Rightarrow> Inl e
                               | Inr x1 \<Rightarrow>
                                   (case segAt segData (offset + s * 2 + 1) of
                                      Inl e \<Rightarrow> Inl e
                                    | Inr x2 \<Rightarrow> Inr [Line x1 y x2 y strokeW]))
                             [0..<sm_segCount meta]))
              else Inr [])
            (indices (ls_count animState))))"

section \<open>Ellipse Grid\<close>

record eg_params =
  eg_cols :: real
  eg_maxRy :: real
  eg_eccentricity :: real
  eg_speed :: real
  eg_pulseFrac :: real
  eg_color :: string

record eg_overrides =
  eo_cols :: "real option"
  eo_maxRy :: "real option"
  eo_eccentricity :: "real option"
  eo_speed :: "real option"
  eo_pulseFrac :: "real option"
  eo_color :: "string option"

definition eg_merge :: "eg_params \<Rightarrow> eg_overrides \<Rightarrow> eg_params" where
  "eg_merge d p =
     \<lparr> eg_cols = override (eg_cols d) (eo_cols p),
       eg_maxRy = override (eg_maxRy d) (eo_maxRy p),
       eg_eccentricity = override (eg_eccentricity d) (eo_eccentricity p),
       eg_speed = override (eg_speed d) (eo_speed p),
       eg_pulseFrac = override (eg_pulseFrac d) (eo_pulseFrac p),
       eg_color = override (eg_color d) (eo_color p) \<rparr>"


definition eg_none :: eg_overrides where
  "eg_none =
     \<lparr> eo_cols = None, eo_maxRy = None, eo_eccentricity = None, eo_speed = None,
       eo_pulseFrac = None, eo_color = None \<rparr>"

subsection \<open>Ellipse Grid, static (engine/effects/ellipse-grid.js)\<close>

definition eg_getDefaultParams :: eg_params where
  "eg_getDefaultParams =
     \<lparr> eg_cols = 60, eg_maxRy = 18, eg_eccentricity = 0.40, eg_speed = 4.0,
       eg_pulseFrac = 0.5, eg_color = ''#000000'' \<rparr>"

text \<open>
  \<open>rows = Math.max(1, Math.round(cols / aspect))\<close>, where \<open>Math.round\<close> rounds halves
  up as \<^const>\<open>round\<close> does.  With \<open>aspect = 0\<close> and \<open>cols > 0\<close> the quotient is
  infinite, and so is the loop over the rows.
\<close>

definition eg_generate :: "sampleData \<Rightarrow> eg_overrides \<Rightarrow> real \<Rightarrow> real \<Rightarrow> failure + picture" where
  "eg_generate sd params outputWidth outputHeight =
     (let m = eg_merge eg_getDefaultParams params;
          cols = eg_cols m
      in if aspect sd = 0 \<and> 0 < cols then Inl NonTerminating
         else
          (let rows = max 1 (real_of_int (round (cols / aspect sd)));
               cellW = outputWidth / cols;
               cellH = outputHeight / rows;
               scale = outputHeight / 1000;
               ryMax = eg_maxRy m * scale
           in map_sum id (\<lambda>ps. \<lparr> colour = eg_color m, prims = ps \<rparr>)
                (collect (\<lambda>r.
                   collect (\<lambda>c.
                     let u = unitCoord cols c;
                         v = unitCoord rows r
                     in case darknessAt sd u v of
                          Inl e \<Rightarrow> Inl e
                        | Inr darkness \<Rightarrow>
                            (let cx = real c * cellW + cellW / 2;
                                 cy = real r * cellH + cellH / 2;
                                 ry = lerp 0 ryMax darkness;
                                 rx = max (ry * eg_eccentricity m) 0.5
                             in if rx < 0.3 \<and> ry < 0.3 then Inr []
                                else Inr [Ellipse cx cy rx ry]))
                    (indices cols))
                 (indices rows))))"

subsection \<open>Ellipse Grid, animated (animate/effects/ellipse-grid-anim.js)\<close>




text \<open>A loop that updates a state and can fail.\<close>

fun foldF :: "('a \<Rightarrow> 's \<Rightarrow> failure + 's) \<Rightarrow> 'a list \<Rightarrow> 's \<Rightarrow> failure + 's" where
  "foldF f [] s = Inr s"
| "foldF f (x # xs) s = (case f x s of Inl e \<Rightarrow> Inl e | Inr s' \<Rightarrow> foldF f xs s')"

record eg_state =
  es_cellData :: "real list"
  es_cols :: real
  es_rows :: real
  es_outputWidth :: real
  es_outputHeight :: real
  es_params :: eg_params


definition ega_drawFrame :: "eg_state \<Rightarrow> real \<Rightarrow> failure + picture" where
  "ega_drawFrame animState t =
     (let cellData = es_cellData animState;
          params = es_params animState;
          total = es_cols animState * es_rows animState
      in map_sum id (\<lambda>ps. \<lparr> colour = eg_color params, prims = ps \<rparr>)
           (collect (\<lambda>i.
              case (segAt cellData (i * 4 + 0), segAt cellData (i * 4 + 1),
                    segAt cellData (i * 4 + 2), segAt cellData (i * 4 + 3)) of
                (Inr cx, Inr cy, Inr baseRy, Inr phase) \<Rightarrow>
                  (let pulse = 0.5 + 0.5 * sin (t * eg_speed params + phase);
                       ry = lerp (baseRy * (1 - eg_pulseFrac params)) baseRy pulse;
                       rx = max (ry * eg_eccentricity params) 0.5
                   in if ry < 0.5 then Inr [] else Inr [Ellipse cx cy rx ry])
              | _ \<Rightarrow> Inl OutOfBounds)
            (indices total)))"

section \<open>Particle Scatter\<close>

record ps_params =
  ps_maxDots :: real
  ps_maxRadius :: real
  ps_minRadius :: real
  ps_seed :: real
  ps_scatter :: real
  ps_speed :: real
  ps_color :: string

record ps_overrides =
  po_maxDots :: "real option"
  po_maxRadius :: "real option"
  po_minRadius :: "real option"
  po_seed :: "real option"
  po_scatter :: "real option"
  po_speed :: "real option"
  po_color :: "string option"

definition ps_merge :: "ps_params \<Rightarrow> ps_overrides \<Rightarrow> ps_params" where
  "ps_merge d p =
     \<lparr> ps_maxDots = override (ps_maxDots d) (po_maxDots p),
       ps_maxRadius = override (ps_maxRadius d) (po_maxRadius p),
       ps_minRadius = override (ps_minRadius d) (po_minRadius p),
       ps_seed = override (ps_seed d) (po_seed p),
       ps_scatter = override (ps_scatter d) (po_scatter p),
       ps_speed = override (ps_speed d) (po_speed p),
       ps_color = override (ps_color d) (po_color p) \<rparr>"


definition ps_none :: ps_overrides where
  "ps_none =
     \<lparr> po_maxDots = None, po_maxRadius = None, po_minRadius = None, po_seed = None,
       po_scatter = None, po_speed = None, po_color = None \<rparr>"

text \<open>
  \<open>seed | 0\<close> on a number that need not be whole: \<open>ToInt32\<close> first drops the
  fraction, rounding towards zero.
\<close>

definition truncToInt :: "real \<Rightarrow> int" where
  "truncToInt x = (if 0 \<le> x then \<lfloor>x\<rfloor> else \<lceil>x\<rceil>)"

text \<open>
  The cumulative weight table: for each grid cell in row order the running total of
  \<open>Math.pow(darkness, 1.8) + 0.02\<close>.  The cell is read as \<open>grid[r][c]\<close>; the power of a
  negative darkness is \<open>NaN\<close>.  \<open>ps_addWeight\<close> is the body of the loops, on the state
  \<open>(totalWeight, weights)\<close>.
\<close>

definition ps_addWeight :: "sampleData \<Rightarrow> nat \<Rightarrow> nat \<Rightarrow> real \<times> real list \<Rightarrow> failure + real \<times> real list" where
  "ps_addWeight sd r c = (\<lambda>(totalWeight, weights).
     case cell (grid sd) (int r) (int c) of
       None \<Rightarrow> Inl OutOfBounds
     | Some brightness \<Rightarrow>
         (let darkness = 1 - brightness
          in if darkness < 0 then Inl NotANumber
             else (let w = darkness powr 1.8 + 0.02;
                       totalWeight = totalWeight + w
                   in Inr (totalWeight, weights @ [totalWeight]))))"

definition ps_weights :: "sampleData \<Rightarrow> failure + real \<times> real list" where
  "ps_weights sd =
     foldF (\<lambda>r. foldF (ps_addWeight sd r) [0..<gridCols sd]) [0..<gridRows sd] (0, [])"

text \<open>
  The binary search for the first table entry that is not below the target:
  \<open>while (lo < hi) { mid = (lo + hi) >>> 1; if (weights[mid] < target) lo = mid + 1;
  else hi = mid; }\<close>.  The indices are far below \<open>2^31\<close>, where \<open>>>> 1\<close> halves.
\<close>

function pickCell :: "real list \<Rightarrow> real \<Rightarrow> nat \<Rightarrow> nat \<Rightarrow> nat" where
  "pickCell weights target lo hi =
     (if lo < hi then
        (let mid = (lo + hi) div 2
         in if weights ! mid < target then pickCell weights target (mid + 1) hi
            else pickCell weights target lo mid)
      else lo)"
  by pat_completeness auto
termination
  by (relation "measure (\<lambda>(weights, target, lo, hi). hi - lo)") auto

declare pickCell.simps [simp del]

text \<open>
  One round of the particle loop up to the phase draw; the statements are the same in
  the static generator (lines 241 to 268 of particle-scatter.js) and in \<open>init\<close> (lines
  61 to 89 of particle-scatter-anim.js).  \<open>s\<close> is the state of the generator \<open>rand\<close>.
  The result is the particle \<open>(x, y, baseR, ph)\<close>, or \<open>None\<close> after a \<open>continue\<close>,
  with the state of \<open>rand\<close> after the round.  With an output width or height of \<open>0\<close>
  the sample position is \<open>0/0\<close>.
\<close>

definition ps_particle :: "sampleData \<Rightarrow> ps_params \<Rightarrow> real \<Rightarrow> real \<Rightarrow> real list \<Rightarrow> real
    \<Rightarrow> int \<Rightarrow> failure + (real \<times> real \<times> real \<times> real) option \<times> int" where
  "ps_particle sd m outputWidth outputHeight weights totalWeight s0 =
     (let safeMinRadius = min (ps_minRadius m) (ps_maxRadius m);
          safeMaxRadius = max (ps_minRadius m) (ps_maxRadius m);
          cellW = outputWidth / real (gridCols sd);
          cellH = outputHeight / real (gridRows sd);
          (r1, s1) = mulberry32_next s0;
          target = r1 * totalWeight;
          cellIndex = pickCell weights target 0 (length weights - 1);
          cr = cellIndex div gridCols sd;
          cc = cellIndex mod gridCols sd;
          (r2, s2) = mulberry32_next s1;
          x = (real cc + 0.5 + (r2 - 0.5) * (1 + ps_scatter m)) * cellW;
          (r3, s3) = mulberry32_next s2;
          y = (real cr + 0.5 + (r3 - 0.5) * (1 + ps_scatter m)) * cellH
      in if x < 0 \<or> x > outputWidth \<or> y < 0 \<or> y > outputHeight then Inr (None, s3)
         else if outputWidth = 0 \<or> outputHeight = 0 then Inl NotANumber
         else
          (let u = x / outputWidth;
               v = y / outputHeight
           in case darknessAt sd u v of
                Inl e \<Rightarrow> Inl e
              | Inr darkness \<Rightarrow>
                  (let (r4, s4) = mulberry32_next s3;
                       baseR = lerp safeMinRadius safeMaxRadius (darkness * (0.3 + r4 * 0.7))
                   in if baseR < 0.15 then Inr (None, s4)
                      else (let (r5, s5) = mulberry32_next s4;
                                ph = r5 * pi * 2
                            in Inr (Some (x, y, baseR, ph), s5)))))"

text \<open>
  The particle loop: \<open>n\<close> rounds from generator state \<open>s\<close>, with the results of the
  rounds in order.
\<close>

fun rounds :: "(int \<Rightarrow> failure + 'a option \<times> int) \<Rightarrow> nat \<Rightarrow> int \<Rightarrow> failure + 'a list" where
  "rounds step 0 s = Inr []"
| "rounds step (Suc n) s =
     (case step s of
        Inl e \<Rightarrow> Inl e
      | Inr (out, s') \<Rightarrow>
          (case rounds step n s' of
             Inl e \<Rightarrow> Inl e
           | Inr rest \<Rightarrow> Inr ((case out of None \<Rightarrow> [] | Some p \<Rightarrow> [p]) @ rest)))"

subsection \<open>Particle Scatter, static (engine/effects/particle-scatter.js)\<close>

definition ps_getDefaultParams :: ps_params where
  "ps_getDefaultParams =
     \<lparr> ps_maxDots = 6000, ps_maxRadius = 6, ps_minRadius = 0.5, ps_seed = 42,
       ps_scatter = 1.0, ps_speed = 4.0, ps_color = ''#000000'' \<rparr>"

text \<open>
  One round of the static generator's loop: after the shared part it evaluates the
  pulse at time \<open>0\<close> and pushes the circle unless its radius is below \<open>0.15\<close>.
\<close>

definition ps_dot :: "sampleData \<Rightarrow> ps_params \<Rightarrow> real \<Rightarrow> real \<Rightarrow> real list \<Rightarrow> real
    \<Rightarrow> int \<Rightarrow> failure + prim option \<times> int" where
  "ps_dot sd m outputWidth outputHeight weights totalWeight s =
     (let safeMinRadius = min (ps_minRadius m) (ps_maxRadius m)
      in case ps_particle sd m outputWidth outputHeight weights totalWeight s of
           Inl e \<Rightarrow> Inl e
         | Inr (None, s') \<Rightarrow> Inr (None, s')
         | Inr (Some (px, py, baseR, ph), s') \<Rightarrow>
             (let pulse = 0.5 + 0.5 * sin ph;
                  r = lerp safeMinRadius baseR pulse
              in if r < 0.15 then Inr (None, s')
                 else Inr (Some (Circle px py r), s')))"

definition ps_generate :: "sampleData \<Rightarrow> ps_overrides \<Rightarrow> real \<Rightarrow> real \<Rightarrow> failure + picture" where
  "ps_generate sd params outputWidth outputHeight =
     (let m = ps_merge ps_getDefaultParams params;
          dotCount = nat (max 1 (round (ps_maxDots m)));
          rand = mulberry32 (truncToInt (ps_seed m))
      in case ps_weights sd of
           Inl e \<Rightarrow> Inl e
         | Inr (totalWeight, weights) \<Rightarrow>
             if totalWeight = 0 then Inr \<lparr> colour = ps_color m, prims = [] \<rparr>
             else
               map_sum id (\<lambda>ps. \<lparr> colour = ps_color m, prims = ps \<rparr>)
                 (rounds (ps_dot sd m outputWidth outputHeight weights totalWeight)
                    dotCount rand))"

subsection \<open>Particle Scatter, animated (animate/effects/particle-scatter-anim.js)\<close>





section \<open>Star Glint\<close>

record sg_params =
  sg_density :: real
  sg_scale :: real
  sg_sharpness :: real
  sg_jitter :: real
  sg_speed :: real
  sg_color :: string

record sg_overrides =
  so_density :: "real option"
  so_scale :: "real option"
  so_sharpness :: "real option"
  so_jitter :: "real option"
  so_speed :: "real option"
  so_color :: "string option"

definition sg_merge :: "sg_params \<Rightarrow> sg_overrides \<Rightarrow> sg_params" where
  "sg_merge d p =
     \<lparr> sg_density = override (sg_density d) (so_density p),
       sg_scale = override (sg_scale d) (so_scale p),
       sg_sharpness = override (sg_sharpness d) (so_sharpness p),
       sg_jitter = override (sg_jitter d) (so_jitter p),
       sg_speed = override (sg_speed d) (so_speed p),
       sg_color = override (sg_color d) (so_color p) \<rparr>"


definition sg_none :: sg_overrides where
  "sg_none =
     \<lparr> so_density = None, so_scale = None, so_sharpness = None, so_jitter = None,
       so_speed = None, so_color = None \<rparr>"

text \<open>The hash \<open>pseudoRandom\<close>: the fractional part of \<open>sin(seed) * 10000\<close>.\<close>

definition pseudoRandom :: "real \<Rightarrow> real" where
  "pseudoRandom seed = (let x = sin seed * 10000 in x - of_int \<lfloor>x\<rfloor>)"

subsection \<open>Star Glint, static (engine/effects/star-glint.js)\<close>

definition sg_getDefaultParams :: sg_params where
  "sg_getDefaultParams =
     \<lparr> sg_density = 80, sg_scale = 15, sg_sharpness = 0.7, sg_jitter = 5, sg_speed = 4.0,
       sg_color = ''#000000'' \<rparr>"

text \<open>
  The body of the lattice loop after the background skip, for the cell in row \<open>r\<close>
  and column \<open>c\<close> with the darkness sampled there: the glyph, unless its scale is below
  \<open>0.5\<close>.
\<close>

definition sg_glyph :: "sg_params \<Rightarrow> real \<Rightarrow> real \<Rightarrow> nat \<Rightarrow> nat \<Rightarrow> real \<Rightarrow> prim list" where
  "sg_glyph m cols cellW r c darkness =
     (let maxScale = sg_scale m;
          cellH = cellW;
          minScale = 1.0;
          seed = real r * cols + real c;
          rx = pseudoRandom (seed * 1.1) - 0.5;
          ry = pseudoRandom (seed * 1.2) - 0.5;
          rPhase = pseudoRandom (seed * 1.3) * pi * 2;
          maxJitter = min (sg_jitter m) (cellW * 0.8);
          cx = real c * cellW + cellW / 2 + rx * maxJitter;
          cy = real r * cellH + cellH / 2 + ry * maxJitter;
          wave = 0.5 + 0.5 * sin rPhase;
          weight = lerp (darkness * 0.2) darkness wave;
          effectiveMaxScale = min maxScale (cellW * 1.5);
          currentScale = lerp minScale effectiveMaxScale weight
      in if currentScale < 0.5 then []
         else (let cpDist = currentScale * (1 - sg_sharpness m)
               in [Star cx cy currentScale cpDist]))"

text \<open>
  \<open>rows = Math.floor(outputHeight / cellW)\<close> with \<open>cellW = outputWidth / cols\<close>.  With
  an output width of \<open>0\<close> the cell width is a zero with the sign of \<open>cols\<close>, and the
  row count is plus infinity when \<open>cols\<close> and the height have the same sign: the loop
  over the rows does not end.  In the other degenerate cases the row count is \<open>0\<close>,
  minus infinity or \<open>NaN\<close> and the loop does not run, as with the quotient \<open>0\<close> here.
\<close>

definition sg_generate :: "sampleData \<Rightarrow> sg_overrides \<Rightarrow> real \<Rightarrow> real \<Rightarrow> failure + picture" where
  "sg_generate sd params outputWidth outputHeight =
     (let m = sg_merge sg_getDefaultParams params;
          cols = real_of_int \<lfloor>sg_density m\<rfloor>;
          cellW = outputWidth / cols;
          rows = real_of_int \<lfloor>outputHeight / cellW\<rfloor>
      in if outputWidth = 0 \<and> 0 < cols * outputHeight then Inl NonTerminating
         else
           map_sum id (\<lambda>ps. \<lparr> colour = sg_color m, prims = ps \<rparr>)
             (collect (\<lambda>r.
                let v = unitCoord rows r
                in collect (\<lambda>c.
                     let u = unitCoord cols c
                     in case darknessAt sd u v of
                          Inl e \<Rightarrow> Inl e
                        | Inr darkness \<Rightarrow>
                            if darkness < 0.3 then Inr []
                            else Inr (sg_glyph m cols cellW r c darkness))
                   (indices cols))
              (indices rows)))"

subsection \<open>Star Glint, animated (animate/effects/star-glint-anim.js)\<close>





section \<open>Line Halftone\<close>

record lh_params =
  lh_density :: real
  lh_contrast :: real
  lh_pulse :: real
  lh_speed :: real
  lh_color :: string





subsection \<open>Line Halftone, static (engine/effects/line-halftone.js)\<close>



subsection \<open>Line Halftone, animated (animate/effects/line-halftone-anim.js)\<close>


text \<open>
  The typed arrays \<open>sx\<close>, \<open>sy\<close>, \<open>sd\<close> are modelled as the list of their \<open>count\<close>
  used entries \<open>(sx, sy, sd)\<close>; a negative row count makes their length negative.
\<close>

record lh_state =
  lhs_count :: nat
  lhs_stepsPerLine :: real
  lhs_stepW :: real
  lhs_segs :: "(real \<times> real \<times> real) list"
  lhs_outputWidth :: real
  lhs_outputHeight :: real
  lhs_cellH :: real
  lhs_params :: lh_params


text \<open>
  The frame recomputes the wave coordinate as \<open>x / outputWidth\<close>, which is \<open>0/0\<close> when
  the output width is \<open>0\<close>.
\<close>

definition lha_drawFrame :: "lh_state \<Rightarrow> real \<Rightarrow> failure + picture" where
  "lha_drawFrame animState t =
     (let params = lhs_params animState;
          stepW = lhs_stepW animState;
          minStroke = 0.5;
          maxStroke = min (lh_contrast params) (lhs_cellH animState * 1.8)
      in map_sum id (\<lambda>ps. \<lparr> colour = lh_color params, prims = ps \<rparr>)
           (collect (\<lambda>(x, y, darkness).
              if lhs_outputWidth animState = 0 then Inl NotANumber
              else
               (let u = x / lhs_outputWidth animState;
                    phase = u * pi * 2 * lh_pulse params + (t * lh_speed params * 2.0);
                    wave = 0.5 + 0.5 * sin phase;
                    weight = lerp (darkness * 0.2) darkness wave;
                    currentWidth = lerp minStroke maxStroke weight
                in Inr [Line (x - stepW / 2) y (x + stepW / 2 + 0.5) y currentWidth]))
            (take (lhs_count animState) (lhs_segs animState))))"

section \<open>The brightness sampler (engine/svg-sampler.js)\<close>



text \<open>
  Sample data as the sampler produces it: a grid of \<open>gridRows \<times> gridCols\<close> cells with
  at least one cell, and \<open>aspect = gridCols / gridRows\<close>.
\<close>

definition wf_sampleData :: "sampleData \<Rightarrow> bool" where
  "wf_sampleData sd \<longleftrightarrow>
     wf_grid (grid sd) (gridCols sd) (gridRows sd)
     \<and> aspect sd = real (gridCols sd) / real (gridRows sd)"

section \<open>The all-white scenario\<close>

text \<open>
  The sample data of the specification's scenario: a grid of \<open>10 \<times> 10\<close> cells, each of
  brightness \<open>1\<close>, sampled from a square source.
\<close>

definition white10 :: sampleData where
  "white10 =
     \<lparr> grid = replicate 10 (replicate 10 1), gridCols = 10, gridRows = 10, aspect = 1,
       svgWidth = 100, svgHeight = 100 \<rparr>"

chapter \<open>Verification\<close>

section \<open>The generator against its recipe\<close>

lemma w32_toInt32: "(word_of_int (toInt32 x) :: 32 word) = word_of_int x"
  by (simp add: toInt32_def word_of_int_eq_iff take_bit_signed_take_bit)

lemma w32_bxor: "(word_of_int (bxor a b) :: 32 word) = word_of_int a XOR word_of_int b"
  by (simp add: bxor_def w32_toInt32 of_int_xor_eq)

lemma w32_bor: "(word_of_int (bor a b) :: 32 word) = word_of_int a OR word_of_int b"
  by (simp add: bor_def w32_toInt32 of_int_or_eq)

lemma w32_imul: "(word_of_int (imul a b) :: 32 word) = word_of_int a * word_of_int b"
  by (simp add: imul_def w32_toInt32)

lemma w32_ushr: "(word_of_int (ushr a n) :: 32 word) = drop_bit n (word_of_int a)"
  unfolding ushr_def toUint32_def by transfer simp

lemma ushr0: "real_of_int (ushr a 0) = real (unat (word_of_int a :: 32 word))"
proof -
  have a: "ushr a 0 = take_bit 32 a"
    by (simp add: ushr_def toUint32_def)
  have b: "uint (word_of_int a :: 32 word) = take_bit LENGTH(32) a"
    by (rule uint_word_of_int_eq)
  have c: "LENGTH(32) = 32" by simp
  have "real_of_int (uint (word_of_int a :: 32 word)) = real (unat (word_of_int a :: 32 word))"
    by (simp only: uint_nat of_int_of_nat_eq)
  with a b c show ?thesis by (simp only:)
qed

lemma two_pow_32: "(2::real) ^ 32 = 4294967296"
  by simp

lemma next_refines:
  "recipe_next (word_of_int s) = (fst (mulberry32_next s), word_of_int (snd (mulberry32_next s)))"
  unfolding mulberry32_next_def recipe_next_def Let_def fst_conv snd_conv
  by (simp only: w32_bxor w32_bor w32_imul w32_ushr ushr0 of_int_add of_int_numeral
        of_int_0 of_int_1 or.right_neutral two_pow_32)

lemma take_refines: "mulberry32_take n s = recipe_take n (word_of_int s)"
proof (induction n arbitrary: s)
  case 0
  show ?case by simp
next
  case (Suc n)
  show ?case
    by (simp only: mulberry32_take.simps recipe_take.simps next_refines [of s] Suc.IH
          case_prod_beta fst_conv snd_conv)
qed

lemma mulberry32_seed: "(word_of_int (mulberry32 seed) :: 32 word) = word_of_int seed"
  by (simp only: mulberry32_def w32_bor of_int_0 or.right_neutral)

lemma unat32_less: "real (unat (w :: 32 word)) < 4294967296"
proof -
  have "unat w < 2 ^ LENGTH(32)" by (rule unsigned_less)
  then have "unat w < 4294967296" by simp
  then show ?thesis by linarith
qed

lemma unit_range:
  "0 \<le> real (unat (w :: 32 word)) / 4294967296 \<and> real (unat w) / 4294967296 < 1"
proof -
  have "0 \<le> real (unat w)" by (rule of_nat_0_le_iff)
  with unat32_less [of w] show ?thesis
    by (simp only: divide_nonneg_pos divide_less_eq_1_pos zero_less_numeral simp_thms)
qed

lemma recipe_next_range: "0 \<le> fst (recipe_next s) \<and> fst (recipe_next s) < 1"
  unfolding recipe_next_def Let_def fst_conv two_pow_32
  by (rule unit_range)

lemma recipe_take_range: "\<forall>x \<in> set (recipe_take n s). 0 \<le> x \<and> x < 1"
proof (induction n arbitrary: s)
  case 0
  show ?case by simp
next
  case (Suc n)
  obtain x s' where st: "recipe_next s = (x, s')" by (cases "recipe_next s")
  with recipe_next_range [of s] have "0 \<le> x \<and> x < 1" by simp
  with st Suc.IH [of s'] show ?case by simp
qed

lemma mulberry32_next_range:
  "0 \<le> fst (mulberry32_next s) \<and> fst (mulberry32_next s) < 1"
  using recipe_next_range [of "word_of_int s"] by (simp only: next_refines fst_conv)

text \<open>
  Claim C2.  For every integer seed and every length \<open>n\<close>, the first \<open>n\<close> numbers
  produced by the closure that \<open>mulberry32(seed)\<close> returns are exactly the numbers of
  the documented recipe run on 32-bit words from the seed's low 32 bits, and each of them
  lies in \<open>[0, 1)\<close>.
\<close>

theorem mulberry32_matches_recipe:
  "mulberry32_take n (mulberry32 seed) = recipe_take n (word_of_int seed)
   \<and> (\<forall>x \<in> set (mulberry32_take n (mulberry32 seed)). 0 \<le> x \<and> x < 1)"
  using take_refines [of n "mulberry32 seed"] recipe_take_range [of n "word_of_int seed"]
  by (simp only: mulberry32_seed)

theorem mulberry32_matches_recipe_witness:
  "recipe_take 1 (word_of_int 42) = [2581720956 / 4294967296]
   \<and> (2581720956 / 4294967296 :: real) \<in> set (mulberry32_take 1 (mulberry32 42))
   \<and> 0 \<le> (2581720956 / 4294967296 :: real) \<and> (2581720956 / 4294967296 :: real) < 1"
proof -
  have e: "mulberry32_take 1 (mulberry32 42) = [2581720956 / 4294967296]"
    by (simp add: mulberry32_next_def mulberry32_def bor_def bxor_def imul_def ushr_def
          toInt32_def toUint32_def Let_def)
  from mulberry32_matches_recipe [of 1 42] e show ?thesis by simp
qed

section \<open>The bilinear sampler on a well-formed grid\<close>

lemma cell_wf:
  "wf_grid g cols rows \<Longrightarrow>
   cell g y x = (if 0 \<le> y \<and> y < int rows \<and> 0 \<le> x \<and> x < int cols
                    then Some (g ! nat y ! nat x) else None)"
  by (auto simp: cell_def wf_grid_def)

lemma cell_Some: "wf_grid g cols rows \<Longrightarrow> 0 \<le> y \<Longrightarrow> y < int rows \<Longrightarrow> 0 \<le> x \<Longrightarrow> x < int cols
  \<Longrightarrow> cell g y x = Some (g ! nat y ! nat x)"
  by (simp add: cell_wf)

lemma bilinear_lower:
  fixes m :: real
  assumes "0 \<le> fx" "fx \<le> 1" "0 \<le> fy" "fy \<le> 1" "m \<le> a" "m \<le> b" "m \<le> c" "m \<le> d"
  shows "m \<le> a * (1 - fx) * (1 - fy) + b * fx * (1 - fy) + c * (1 - fx) * fy + d * fx * fy"
proof -
  have 1: "m * ((1 - fx) * (1 - fy)) \<le> a * ((1 - fx) * (1 - fy))"
    using assms by (intro mult_right_mono) auto
  have 2: "m * (fx * (1 - fy)) \<le> b * (fx * (1 - fy))"
    using assms by (intro mult_right_mono) auto
  have 3: "m * ((1 - fx) * fy) \<le> c * ((1 - fx) * fy)"
    using assms by (intro mult_right_mono) auto
  have 4: "m * (fx * fy) \<le> d * (fx * fy)"
    using assms by (intro mult_right_mono) auto
  have "m = m * ((1 - fx) * (1 - fy)) + m * (fx * (1 - fy)) + m * ((1 - fx) * fy) + m * (fx * fy)"
    by (simp add: algebra_simps)
  with 1 2 3 4 show ?thesis by (simp add: mult.assoc)
qed

lemma bilinear_upper:
  fixes m :: real
  assumes "0 \<le> fx" "fx \<le> 1" "0 \<le> fy" "fy \<le> 1" "a \<le> m" "b \<le> m" "c \<le> m" "d \<le> m"
  shows "a * (1 - fx) * (1 - fy) + b * fx * (1 - fy) + c * (1 - fx) * fy + d * fx * fy \<le> m"
  using bilinear_lower [of fx fy "- m" "- a" "- b" "- c" "- d"] assms by simp


lemma sampleBilinear_wf:
  assumes wf: "wf_grid g cols rows"
  shows "sampleBilinear g cols rows u v =
     (let x = u * (real cols - 1);
          y = v * (real rows - 1);
          x0 = \<lfloor>x\<rfloor>;
          y0 = \<lfloor>y\<rfloor>;
          x1 = min (x0 + 1) (int cols - 1);
          y1 = min (y0 + 1) (int rows - 1);
          fx = x - of_int x0;
          fy = y - of_int y0
      in if 0 \<le> x0 \<and> x0 < int cols \<and> 0 \<le> y0 \<and> y0 < int rows
         then Some (g ! nat y0 ! nat x0 * (1 - fx) * (1 - fy)
                    + g ! nat y0 ! nat x1 * fx * (1 - fy)
                    + g ! nat y1 ! nat x0 * (1 - fx) * fy
                    + g ! nat y1 ! nat x1 * fx * fy)
         else None)"
proof -
  from wf have c: "1 \<le> cols" and r: "1 \<le> rows" by (simp_all add: wf_grid_def)
  show ?thesis
    unfolding sampleBilinear_def Let_def cell_wf [OF wf]
    using c r by (auto simp: min_def split: option.splits)
qed

lemma floor_unit_range:
  assumes "0 \<le> u" "u \<le> 1" "1 \<le> n"
  shows "0 \<le> \<lfloor>u * (real n - 1)\<rfloor> \<and> \<lfloor>u * (real n - 1)\<rfloor> < int n"
proof -
  have "0 \<le> u * (real n - 1)" using assms by simp
  moreover have "u * (real n - 1) \<le> 1 * (real n - 1)"
    using assms by (intro mult_right_mono) auto
  then have "u * (real n - 1) < real n" by simp
  ultimately show ?thesis by (simp add: floor_less_iff)
qed



lemma sample_between4:
  assumes wf: "wf_grid g cols rows"
    and u: "0 \<le> u" "u \<le> 1" and v: "0 \<le> v" "v \<le> 1"
  shows "let x0 = nat \<lfloor>u * (real cols - 1)\<rfloor>;
             y0 = nat \<lfloor>v * (real rows - 1)\<rfloor>;
             x1 = min (x0 + 1) (cols - 1);
             y1 = min (y0 + 1) (rows - 1);
             cs = {g ! y0 ! x0, g ! y0 ! x1, g ! y1 ! x0, g ! y1 ! x1}
         in x0 < cols \<and> x1 < cols \<and> y0 < rows \<and> y1 < rows \<and>
            (\<exists>s. sampleBilinear g cols rows u v = Some s \<and> Min cs \<le> s \<and> s \<le> Max cs)"
proof -
  from wf have c1: "1 \<le> cols" and r1: "1 \<le> rows" by (simp_all add: wf_grid_def)
  define x where "x = u * (real cols - 1)"
  define y where "y = v * (real rows - 1)"
  define x0 where "x0 = nat \<lfloor>x\<rfloor>"
  define y0 where "y0 = nat \<lfloor>y\<rfloor>"
  define x1 where "x1 = min (x0 + 1) (cols - 1)"
  define y1 where "y1 = min (y0 + 1) (rows - 1)"
  define fx where "fx = x - of_int \<lfloor>x\<rfloor>"
  define fy where "fy = y - of_int \<lfloor>y\<rfloor>"
  define cs where "cs = {g ! y0 ! x0, g ! y0 ! x1, g ! y1 ! x0, g ! y1 ! x1}"
  have xr: "0 \<le> \<lfloor>x\<rfloor> \<and> \<lfloor>x\<rfloor> < int cols"
    unfolding x_def using floor_unit_range [OF u c1] .
  have yr: "0 \<le> \<lfloor>y\<rfloor> \<and> \<lfloor>y\<rfloor> < int rows"
    unfolding y_def using floor_unit_range [OF v r1] .
  have nx1: "nat (min (\<lfloor>x\<rfloor> + 1) (int cols - 1)) = x1"
    using xr c1 unfolding x1_def x0_def by linarith
  have ny1: "nat (min (\<lfloor>y\<rfloor> + 1) (int rows - 1)) = y1"
    using yr r1 unfolding y1_def y0_def by linarith
  have s: "sampleBilinear g cols rows u v =
      Some (g ! y0 ! x0 * (1 - fx) * (1 - fy) + g ! y0 ! x1 * fx * (1 - fy)
            + g ! y1 ! x0 * (1 - fx) * fy + g ! y1 ! x1 * fx * fy)"
    using xr yr
    by (simp add: sampleBilinear_wf [OF wf] Let_def nx1 ny1 flip: x_def y_def x0_def y0_def fx_def fy_def)
  have f: "0 \<le> fx" "fx \<le> 1" "0 \<le> fy" "fy \<le> 1"
    unfolding fx_def fy_def by linarith+
  have fin: "finite cs" "cs \<noteq> {}" by (simp_all add: cs_def)
  have mn: "Min cs \<le> g ! y0 ! x0" "Min cs \<le> g ! y0 ! x1"
           "Min cs \<le> g ! y1 ! x0" "Min cs \<le> g ! y1 ! x1"
    using fin by (simp_all add: cs_def)
  have mx: "g ! y0 ! x0 \<le> Max cs" "g ! y0 ! x1 \<le> Max cs"
           "g ! y1 ! x0 \<le> Max cs" "g ! y1 ! x1 \<le> Max cs"
    using fin by (simp_all add: cs_def)
  have idx: "x0 < cols" "x1 < cols" "y0 < rows" "y1 < rows"
    using xr yr c1 r1 by (auto simp: x0_def x1_def y0_def y1_def)
  from s bilinear_lower [OF f mn] bilinear_upper [OF f mx] idx
  have "x0 < cols \<and> x1 < cols \<and> y0 < rows \<and> y1 < rows \<and>
        (\<exists>s. sampleBilinear g cols rows u v = Some s \<and> Min cs \<le> s \<and> s \<le> Max cs)"
    by (simp only: simp_thms option.inject ex_simps)
  then show ?thesis
    unfolding Let_def cs_def x1_def y1_def x0_def y0_def x_def y_def .
qed




section \<open>The sampler's grid dimensions\<close>






section \<open>Loops, lattice coordinates and samples\<close>

lemma indices_iff: "i \<in> set (indices n) \<longleftrightarrow> real i < n"
proof -
  have "i < nat \<lceil>n\<rceil> \<longleftrightarrow> int i < \<lceil>n\<rceil>" by linarith
  also have "\<dots> \<longleftrightarrow> real i < n" by (simp add: less_ceiling_iff)
  finally show ?thesis by (simp add: indices_def)
qed

lemma indices_whole: "n \<in> \<int> \<Longrightarrow> i \<in> set (indices n) \<Longrightarrow> real i \<le> n - 1"
proof -
  assume "n \<in> \<int>" and i: "i \<in> set (indices n)"
  then obtain k :: int where k: "n = of_int k" by (auto elim: Ints_cases)
  from i have "real i < of_int k" by (simp add: indices_iff k)
  then have "int i < k" by linarith
  then have "int i \<le> k - 1" by simp
  then have "real_of_int (int i) \<le> real_of_int (k - 1)" by (simp only: of_int_le_iff)
  then show ?thesis by (simp add: k)
qed

lemma unitCoord_range: "real i \<le> n - 1 \<Longrightarrow> 0 \<le> unitCoord n i \<and> unitCoord n i \<le> 1"
  by (simp add: unitCoord_def)

lemma unitCoord_whole:
  "n \<in> \<int> \<Longrightarrow> i \<in> set (indices n) \<Longrightarrow> 0 \<le> unitCoord n i \<and> unitCoord n i \<le> 1"
  by (rule unitCoord_range) (rule indices_whole)


lemma collect_Inr:
  "collect f xs = Inr zs \<Longrightarrow>
     (\<forall>x \<in> set xs. \<exists>ys. f x = Inr ys) \<and> zs = concat (map (\<lambda>x. projr (f x)) xs)"
  by (induction xs arbitrary: zs) (auto split: sum.splits)

lemma collect_concat:
  "(\<And>x. x \<in> set xs \<Longrightarrow> f x = Inr (h x)) \<Longrightarrow> collect f xs = Inr (concat (map h xs))"
  by (induction xs) auto

lemma collect_member:
  "collect f xs = Inr zs \<Longrightarrow> z \<in> set zs \<Longrightarrow> \<exists>x \<in> set xs. \<exists>ys. f x = Inr ys \<and> z \<in> set ys"
  by (induction xs arbitrary: zs) (auto split: sum.splits)

lemma collect_cong:
  "(\<And>x. x \<in> set xs \<Longrightarrow> f x = g x) \<Longrightarrow> collect f xs = collect g xs"
proof (induction xs)
  case Nil
  show ?case by simp
next
  case (Cons a xs)
  have "f a = g a" by (rule Cons.prems) simp
  moreover have "collect f xs = collect g xs" by (rule Cons.IH) (simp add: Cons.prems)
  ultimately show ?case by (simp only: collect.simps)
qed


lemma darknessAt_wf:
  assumes "wf_sampleData sd" "0 \<le> u" "u \<le> 1" "0 \<le> v" "v \<le> 1"
  shows "\<exists>d. darknessAt sd u v = Inr d"
proof -
  from assms have wf: "wf_grid (grid sd) (gridCols sd) (gridRows sd)"
    by (simp add: wf_sampleData_def)
  from sample_between4 [OF wf assms(2-5)]
  obtain s where "sampleBilinear (grid sd) (gridCols sd) (gridRows sd) u v = Some s"
    unfolding Let_def by blast
  then show ?thesis by (simp add: darknessAt_def)
qed

section \<open>Overrides layered over the defaults\<close>












section \<open>Reversed minimum and maximum parameters\<close>













lemma indices_1: "indices 1 = [0]"
  by (simp add: indices_def)





section \<open>Ellipse Grid on a white grid\<close>

lemma sample_const:
  assumes wf: "wf_grid g cols rows"
    and c: "\<forall>row \<in> set g. \<forall>x \<in> set row. x = b"
    and u: "0 \<le> u" "u \<le> 1" and v: "0 \<le> v" "v \<le> 1"
  shows "sampleBilinear g cols rows u v = Some b"
proof -
  have cellb: "g ! y ! x = b" if "y < rows" "x < cols" for y x
  proof -
    from wf that have "g ! y \<in> set g" "length (g ! y) = cols"
      by (auto simp: wf_grid_def)
    with that have "g ! y ! x \<in> set (g ! y)" by simp
    with c \<open>g ! y \<in> set g\<close> show ?thesis by blast
  qed
  from sample_between4 [OF wf u v] obtain s where
    s: "sampleBilinear g cols rows u v = Some s"
    and lo: "Min {g ! nat \<lfloor>v * (real rows - 1)\<rfloor> ! nat \<lfloor>u * (real cols - 1)\<rfloor>,
                  g ! nat \<lfloor>v * (real rows - 1)\<rfloor> ! min (nat \<lfloor>u * (real cols - 1)\<rfloor> + 1) (cols - 1),
                  g ! min (nat \<lfloor>v * (real rows - 1)\<rfloor> + 1) (rows - 1) ! nat \<lfloor>u * (real cols - 1)\<rfloor>,
                  g ! min (nat \<lfloor>v * (real rows - 1)\<rfloor> + 1) (rows - 1) ! min (nat \<lfloor>u * (real cols - 1)\<rfloor> + 1) (cols - 1)} \<le> s"
    and hi: "s \<le> Max {g ! nat \<lfloor>v * (real rows - 1)\<rfloor> ! nat \<lfloor>u * (real cols - 1)\<rfloor>,
                  g ! nat \<lfloor>v * (real rows - 1)\<rfloor> ! min (nat \<lfloor>u * (real cols - 1)\<rfloor> + 1) (cols - 1),
                  g ! min (nat \<lfloor>v * (real rows - 1)\<rfloor> + 1) (rows - 1) ! nat \<lfloor>u * (real cols - 1)\<rfloor>,
                  g ! min (nat \<lfloor>v * (real rows - 1)\<rfloor> + 1) (rows - 1) ! min (nat \<lfloor>u * (real cols - 1)\<rfloor> + 1) (cols - 1)}"
    and idx: "nat \<lfloor>u * (real cols - 1)\<rfloor> < cols"
             "min (nat \<lfloor>u * (real cols - 1)\<rfloor> + 1) (cols - 1) < cols"
             "nat \<lfloor>v * (real rows - 1)\<rfloor> < rows"
             "min (nat \<lfloor>v * (real rows - 1)\<rfloor> + 1) (rows - 1) < rows"
    unfolding Let_def by blast
  from lo hi have "s = b"
    by (simp only: cellb [OF idx(3) idx(1)] cellb [OF idx(3) idx(2)] cellb [OF idx(4) idx(1)]
          cellb [OF idx(4) idx(2)]) simp
  with s show ?thesis by simp
qed


lemma darknessAt_const:
  assumes wf: "wf_sampleData sd"
    and c: "\<forall>row \<in> set (grid sd). \<forall>x \<in> set row. x = b"
    and u: "0 \<le> u \<and> u \<le> 1" and v: "0 \<le> v \<and> v \<le> 1"
  shows "darknessAt sd u v = Inr (1 - b)"
proof -
  from wf have "wf_grid (grid sd) (gridCols sd) (gridRows sd)" by (simp add: wf_sampleData_def)
  from sample_const [OF this c] u v show ?thesis by (simp add: darknessAt_def)
qed

lemma wf_aspect_pos: "wf_sampleData sd \<Longrightarrow> 0 < aspect sd"
  by (simp add: wf_sampleData_def wf_grid_def)

lemma max_round_whole: "max 1 (real_of_int (round x)) \<in> \<int>"
  by (simp add: max_def)

lemma eg_generate_white:
  assumes wf: "wf_sampleData sd"
    and white: "\<forall>row \<in> set (grid sd). \<forall>x \<in> set row. x = 1"
    and whole: "eg_cols (eg_merge eg_getDefaultParams p) \<in> \<int>"
  shows "eg_generate sd p w h =
     (let m = eg_merge eg_getDefaultParams p;
          cols = eg_cols m;
          rows = max 1 (real_of_int (round (cols / aspect sd)));
          cellW = w / cols;
          cellH = h / rows
      in Inr \<lparr> colour = eg_color m,
               prims = concat (map (\<lambda>r. concat (map (\<lambda>c.
                          [Ellipse (real c * cellW + cellW / 2) (real r * cellH + cellH / 2) (1/2) 0])
                        (indices cols))) (indices rows)) \<rparr>)"
proof -
  define m where "m = eg_merge eg_getDefaultParams p"
  define cols where "cols = eg_cols m"
  define rows where "rows = max 1 (real_of_int (round (cols / aspect sd)))"
  define cellW where "cellW = w / cols"
  define cellH where "cellH = h / rows"
  have colsZ: "cols \<in> \<int>" using whole by (simp add: cols_def m_def)
  have rowsZ: "rows \<in> \<int>" unfolding rows_def by (rule max_round_whole)
  have asp: "aspect sd \<noteq> 0" using wf_aspect_pos [OF wf] by simp
  have body: "(let u = unitCoord cols c; v = unitCoord rows r
               in case darknessAt sd u v of
                    Inl e \<Rightarrow> Inl e
                  | Inr darkness \<Rightarrow>
                      (let cx = real c * cellW + cellW / 2;
                           cy = real r * cellH + cellH / 2;
                           ry = lerp 0 (eg_maxRy m * (h / 1000)) darkness;
                           rx = max (ry * eg_eccentricity m) 0.5
                       in if rx < 0.3 \<and> ry < 0.3 then Inr []
                          else Inr [Ellipse cx cy rx ry]))
              = Inr [Ellipse (real c * cellW + cellW / 2) (real r * cellH + cellH / 2) (1/2) 0]"
    if r: "r \<in> set (indices rows)" and c: "c \<in> set (indices cols)" for r c
  proof -
    have "darknessAt sd (unitCoord cols c) (unitCoord rows r) = Inr (1 - 1)"
      by (rule darknessAt_const [OF wf white unitCoord_whole [OF colsZ c] unitCoord_whole [OF rowsZ r]])
    then show ?thesis by (simp add: Let_def lerp_def)
  qed
  have inner: "collect (\<lambda>c. let u = unitCoord cols c; v = unitCoord rows r
               in case darknessAt sd u v of
                    Inl e \<Rightarrow> Inl e
                  | Inr darkness \<Rightarrow>
                      (let cx = real c * cellW + cellW / 2;
                           cy = real r * cellH + cellH / 2;
                           ry = lerp 0 (eg_maxRy m * (h / 1000)) darkness;
                           rx = max (ry * eg_eccentricity m) 0.5
                       in if rx < 0.3 \<and> ry < 0.3 then Inr []
                          else Inr [Ellipse cx cy rx ry])) (indices cols)
              = Inr (concat (map (\<lambda>c.
                   [Ellipse (real c * cellW + cellW / 2) (real r * cellH + cellH / 2) (1/2) 0]) (indices cols)))"
    if r: "r \<in> set (indices rows)" for r
    by (rule collect_concat) (rule body [OF r])
  have outer: "collect (\<lambda>r. collect (\<lambda>c. let u = unitCoord cols c; v = unitCoord rows r
               in case darknessAt sd u v of
                    Inl e \<Rightarrow> Inl e
                  | Inr darkness \<Rightarrow>
                      (let cx = real c * cellW + cellW / 2;
                           cy = real r * cellH + cellH / 2;
                           ry = lerp 0 (eg_maxRy m * (h / 1000)) darkness;
                           rx = max (ry * eg_eccentricity m) 0.5
                       in if rx < 0.3 \<and> ry < 0.3 then Inr []
                          else Inr [Ellipse cx cy rx ry])) (indices cols)) (indices rows)
              = Inr (concat (map (\<lambda>r. concat (map (\<lambda>c.
                   [Ellipse (real c * cellW + cellW / 2) (real r * cellH + cellH / 2) (1/2) 0]) (indices cols)))
                   (indices rows)))"
    by (rule collect_concat) (rule inner)
  show ?thesis
    unfolding eg_generate_def
    apply (simp only: Let_def flip: m_def)
    apply (simp only: flip: cols_def)
    apply (simp only: flip: rows_def)
    apply (simp only: flip: cellW_def cellH_def)
    apply (simp only: asp outer [unfolded Let_def] simp_thms if_False map_sum.simps id_apply)
    done
qed

lemma white10_wf: "wf_sampleData white10"
  by (simp add: wf_sampleData_def wf_grid_def white10_def)

lemma white10_white: "\<forall>row \<in> set (grid white10). \<forall>x \<in> set row. x = 1"
  by (simp add: white10_def)

lemma indices_numeral: "indices (numeral k) = [0..<numeral k]"
  by (simp add: indices_def)

text \<open>
  Claim C8 at the all-white grid, with the default parameters and an output of
  \<open>1000 \<times> 1000\<close>.  The static Ellipse Grid tests \<open>rx < 0.3 && ry < 0.3\<close> after
  \<open>rx = Math.max(ry * eccentricity, 0.5)\<close>, so the test never holds: all \<open>60 \<times> 60\<close>
  ellipses are emitted, each with horizontal radius \<open>0.5\<close> and vertical radius \<open>0\<close>.
\<close>

theorem eg_generate_draws_flat_ellipses:
  "eg_generate white10 eg_none 1000 1000 =
     Inr \<lparr> colour = ''#000000'',
           prims = concat (map (\<lambda>r. concat (map (\<lambda>c.
                      [Ellipse (real c * (50/3) + 25/3) (real r * (50/3) + 25/3) (1/2) 0])
                    [0..<60])) [0..<60]) \<rparr>"
proof -
  have m: "eg_merge eg_getDefaultParams eg_none = eg_getDefaultParams"
    by (simp add: eg_merge_def eg_none_def override_def)
  have whole: "eg_cols (eg_merge eg_getDefaultParams eg_none) \<in> \<int>"
    unfolding m by (simp add: eg_getDefaultParams_def)
  have a: "aspect white10 = 1" by (simp add: white10_def)
  have r: "max 1 (real_of_int (round (60 / 1 :: real))) = 60" by simp
  show ?thesis
    unfolding eg_generate_white [OF white10_wf white10_white whole, of 1000 1000] m
    by (simp add: Let_def eg_getDefaultParams_def a indices_numeral mult.commute)
qed

section \<open>The darkness threshold of Star Glint\<close>

text \<open>
  Claim C3, as amended.  Every primitive that the static Star Glint generator emits is
  the glyph of a lattice cell whose sampled darkness is at least \<open>0.3\<close>.  (Particle
  Scatter has no darkness threshold: its only cut is the radius cut at \<open>0.15\<close>.)
\<close>

theorem sg_generate_darkness_threshold:
  assumes gen: "sg_generate sd p w h = Inr pic" and q: "q \<in> set (prims pic)"
  shows "let m = sg_merge sg_getDefaultParams p;
             cols = real_of_int \<lfloor>sg_density m\<rfloor>;
             cellW = w / cols;
             rows = real_of_int \<lfloor>h / cellW\<rfloor>
         in \<exists>r c d. r \<in> set (indices rows) \<and> c \<in> set (indices cols)
              \<and> darknessAt sd (unitCoord cols c) (unitCoord rows r) = Inr d
              \<and> 0.3 \<le> d \<and> q \<in> set (sg_glyph m cols cellW r c d)"
proof -
  define m where "m = sg_merge sg_getDefaultParams p"
  define cols where "cols = real_of_int \<lfloor>sg_density m\<rfloor>"
  define cellW where "cellW = w / cols"
  define rows where "rows = real_of_int \<lfloor>h / cellW\<rfloor>"
  define cellf where "cellf = (\<lambda>r c. case darknessAt sd (unitCoord cols c) (unitCoord rows r) of
                          Inl e \<Rightarrow> Inl e
                        | Inr darkness \<Rightarrow>
                            if darkness < 0.3 then Inr []
                            else Inr (sg_glyph m cols cellW r c darkness))"
  from gen have "map_sum id (\<lambda>ps. \<lparr> colour = sg_color m, prims = ps \<rparr>)
      (collect (\<lambda>r. collect (cellf r) (indices cols)) (indices rows)) = Inr pic"
    unfolding sg_generate_def Let_def cellf_def rows_def cellW_def cols_def m_def
    by (simp split: if_splits)
  then obtain ps where ps: "collect (\<lambda>r. collect (cellf r) (indices cols)) (indices rows) = Inr ps"
      and pic: "pic = \<lparr> colour = sg_color m, prims = ps \<rparr>"
    by (cases "collect (\<lambda>r. collect (cellf r) (indices cols)) (indices rows)") auto
  from q pic have "q \<in> set ps" by simp
  from collect_member [OF ps this] obtain r rs where
    r: "r \<in> set (indices rows)" "collect (cellf r) (indices cols) = Inr rs" "q \<in> set rs" by blast
  from collect_member [OF r(2) r(3)] obtain c cs where
    c: "c \<in> set (indices cols)" "cellf r c = Inr cs" "q \<in> set cs" by blast
  from c(2) obtain d where
    d: "darknessAt sd (unitCoord cols c) (unitCoord rows r) = Inr d"
    and cs: "cs = (if d < 0.3 then [] else sg_glyph m cols cellW r c d)"
    by (auto simp: cellf_def split: sum.splits if_splits)
  from c(3) cs have "0.3 \<le> d" "q \<in> set (sg_glyph m cols cellW r c d)"
    by (auto split: if_splits)
  with r(1) c(1) d have "\<exists>r c d. r \<in> set (indices rows) \<and> c \<in> set (indices cols)
              \<and> darknessAt sd (unitCoord cols c) (unitCoord rows r) = Inr d
              \<and> 0.3 \<le> d \<and> q \<in> set (sg_glyph m cols cellW r c d)"
    by blast
  then show ?thesis
    unfolding Let_def rows_def cellW_def cols_def m_def .
qed


lemma sg_black_cell:
  "sg_generate \<lparr> grid = [[0]], gridCols = 1, gridRows = 1, aspect = 1, svgWidth = 10, svgHeight = 10 \<rparr>
      (sg_none\<lparr>so_density := Some 1\<rparr>) 10 10
   = Inr \<lparr> colour = ''#000000'', prims = [Star (5/2) (5/2) (47/5) (141/50)] \<rparr>"
  by (simp add: sg_generate_def sg_merge_def sg_none_def sg_getDefaultParams_def override_def
        indices_1 unitCoord_def darknessAt_def sampleBilinear_def cell_def lerp_def Let_def
        sg_glyph_def pseudoRandom_def)

theorem sg_generate_darkness_threshold_witness:
  "sg_generate \<lparr> grid = [[0]], gridCols = 1, gridRows = 1, aspect = 1, svgWidth = 10, svgHeight = 10 \<rparr>
      (sg_none\<lparr>so_density := Some 1\<rparr>) 10 10
     = Inr \<lparr> colour = ''#000000'', prims = [Star (5/2) (5/2) (47/5) (141/50)] \<rparr>
   \<and> darknessAt \<lparr> grid = [[0]], gridCols = 1, gridRows = 1, aspect = 1, svgWidth = 10, svgHeight = 10 \<rparr>
        (unitCoord 1 0) (unitCoord 1 0) = Inr 1
   \<and> (0.3 :: real) \<le> 1"
proof -
  let ?sd = "\<lparr> grid = [[0]], gridCols = 1, gridRows = 1, aspect = 1, svgWidth = 10, svgHeight = 10 \<rparr>"
  have "Star (5/2) (5/2) (47/5) (141/50)
        \<in> set (prims \<lparr> colour = ''#000000'', prims = [Star (5/2) (5/2) (47/5) (141/50)] \<rparr>)"
    by simp
  from sg_generate_darkness_threshold [OF sg_black_cell this]
  obtain r c d where
    "r \<in> set (indices 1)" "c \<in> set (indices 1)"
    "darknessAt ?sd (unitCoord 1 c) (unitCoord 1 r) = Inr d" "0.3 \<le> d"
    by (auto simp: Let_def sg_merge_def sg_none_def sg_getDefaultParams_def override_def)
  then have "darknessAt ?sd (unitCoord 1 0) (unitCoord 1 0) = Inr d \<and> 0.3 \<le> d"
    by (simp add: indices_1)
  moreover have "darknessAt ?sd (unitCoord 1 0) (unitCoord 1 0) = Inr 1"
    by (simp add: unitCoord_def darknessAt_def sampleBilinear_def cell_def Let_def)
  ultimately show ?thesis using sg_black_cell by simp
qed

section \<open>The weight table of Particle Scatter\<close>

lemma foldF_append:
  "foldF f (xs @ ys) s = (case foldF f xs s of Inl e \<Rightarrow> Inl e | Inr s' \<Rightarrow> foldF f ys s')"
  by (induction xs arbitrary: s) (auto split: sum.splits)


lemma wf_cell:
  "wf_sampleData sd \<Longrightarrow> r < gridRows sd \<Longrightarrow> c < gridCols sd \<Longrightarrow>
   cell (grid sd) (int r) (int c) = Some (grid sd ! r ! c)"
proof -
  assume "wf_sampleData sd" and rc: "r < gridRows sd" "c < gridCols sd"
  then have "wf_grid (grid sd) (gridCols sd) (gridRows sd)" by (simp add: wf_sampleData_def)
  from cell_wf [OF this, of "int r" "int c"] rc show ?thesis by simp
qed

lemma wf_cell_in: 
  "wf_sampleData sd \<Longrightarrow> r < gridRows sd \<Longrightarrow> c < gridCols sd \<Longrightarrow>
   grid sd ! r \<in> set (grid sd) \<and> grid sd ! r ! c \<in> set (grid sd ! r)"
  by (auto simp: wf_sampleData_def wf_grid_def)

lemma ps_addWeight_wf:
  assumes wf: "wf_sampleData sd" and r: "r < gridRows sd" and c: "c < gridCols sd"
    and b: "grid sd ! r ! c \<le> 1"
  shows "ps_addWeight sd r c (t, ws)
     = Inr (t + ((1 - grid sd ! r ! c) powr 1.8 + 0.02),
            ws @ [t + ((1 - grid sd ! r ! c) powr 1.8 + 0.02)])"
  using b by (simp add: ps_addWeight_def wf_cell [OF wf r c] Let_def)




lemma ps_row_const:
  assumes wf: "wf_sampleData sd"
    and const: "\<forall>row \<in> set (grid sd). \<forall>x \<in> set row. x = b"
    and b: "b \<le> 1" and r: "r < gridRows sd"
  shows "n \<le> gridCols sd \<Longrightarrow>
     foldF (ps_addWeight sd r) [0..<n] (t, ws)
      = Inr (t + real n * ((1 - b) powr 1.8 + 0.02),
             ws @ map (\<lambda>k. t + real (Suc k) * ((1 - b) powr 1.8 + 0.02)) [0..<n])"
proof (induction n)
  case 0
  show ?case by simp
next
  case (Suc n)
  define w0 where "w0 = (1 - b) powr 1.8 + 0.02"
  from Suc have n: "n < gridCols sd" and IH: "foldF (ps_addWeight sd r) [0..<n] (t, ws)
      = Inr (t + real n * w0, ws @ map (\<lambda>k. t + real (Suc k) * w0) [0..<n])"
    by (simp_all add: w0_def)
  from wf_cell_in [OF wf r n] const have cb: "grid sd ! r ! n = b" by blast
  have st: "ps_addWeight sd r n (t + real n * w0, ws @ map (\<lambda>k. t + real (Suc k) * w0) [0..<n])
     = Inr (t + real n * w0 + w0, (ws @ map (\<lambda>k. t + real (Suc k) * w0) [0..<n]) @ [t + real n * w0 + w0])"
    using ps_addWeight_wf [OF wf r n, of "t + real n * w0"] b by (simp add: cb w0_def)
  have e: "t + real n * w0 + w0 = t + real (Suc n) * w0" by (simp add: algebra_simps)
  have "foldF (ps_addWeight sd r) [0..<Suc n] (t, ws)
      = Inr (t + real (Suc n) * w0, ws @ map (\<lambda>k. t + real (Suc k) * w0) [0..<Suc n])"
    unfolding upt_Suc_append [OF le0] foldF_append IH sum.case foldF.simps st e
    by (simp only: map_append list.map append_assoc)
  then show ?case by (simp only: w0_def)
qed


lemma upt_shift: "[a..<a + c] = map (\<lambda>k. a + k) [0..<c]"
  by (induction c) simp_all

lemma upt_block: "[0..<Suc n * c] = [0..<n * c] @ map (\<lambda>k. n * c + k) [0..<c]"
proof -
  have "[0..<Suc n * c] = [0..<n * c + c]" by (simp add: add.commute)
  also have "\<dots> = [0..<n * c] @ [n * c..<n * c + c]" by (rule upt_add_eq_append) simp
  also have "[n * c..<n * c + c] = map (\<lambda>k. n * c + k) [0..<c]"
    by (rule upt_shift)
  finally show ?thesis .
qed

lemma ps_rows_const:
  assumes wf: "wf_sampleData sd"
    and const: "\<forall>row \<in> set (grid sd). \<forall>x \<in> set row. x = b"
    and b: "b \<le> 1"
  shows "n \<le> gridRows sd \<Longrightarrow>
     foldF (\<lambda>r. foldF (ps_addWeight sd r) [0..<gridCols sd]) [0..<n] (t, ws)
      = Inr (t + real (n * gridCols sd) * ((1 - b) powr 1.8 + 0.02),
             ws @ map (\<lambda>k. t + real (Suc k) * ((1 - b) powr 1.8 + 0.02)) [0..<n * gridCols sd])"
proof (induction n)
  case 0
  show ?case by simp
next
  case (Suc n)
  define w0 where "w0 = (1 - b) powr 1.8 + 0.02"
  define C where "C = gridCols sd"
  from Suc have n: "n < gridRows sd"
    and IH: "foldF (\<lambda>r. foldF (ps_addWeight sd r) [0..<C]) [0..<n] (t, ws)
      = Inr (t + real (n * C) * w0, ws @ map (\<lambda>k. t + real (Suc k) * w0) [0..<n * C])"
    by (simp_all add: w0_def C_def)
  have row: "foldF (ps_addWeight sd n) [0..<C]
        (t + real (n * C) * w0, ws @ map (\<lambda>k. t + real (Suc k) * w0) [0..<n * C])
      = Inr (t + real (n * C) * w0 + real C * w0,
             (ws @ map (\<lambda>k. t + real (Suc k) * w0) [0..<n * C])
              @ map (\<lambda>k. t + real (n * C) * w0 + real (Suc k) * w0) [0..<C])"
    unfolding C_def w0_def by (rule ps_row_const [OF wf const b n order_refl])
  have e1: "t + real (n * C) * w0 + real C * w0 = t + real (Suc n * C) * w0"
    by (simp add: algebra_simps)
  have e2: "map (\<lambda>k. t + real (n * C) * w0 + real (Suc k) * w0) [0..<C]
          = map (\<lambda>k. t + real (Suc k) * w0) (map (\<lambda>k. n * C + k) [0..<C])"
    by (simp add: o_def algebra_simps)
  have "foldF (\<lambda>r. foldF (ps_addWeight sd r) [0..<C]) [0..<Suc n] (t, ws)
      = Inr (t + real (Suc n * C) * w0, ws @ map (\<lambda>k. t + real (Suc k) * w0) [0..<Suc n * C])"
    unfolding upt_Suc_append [OF le0] foldF_append IH sum.case foldF.simps row e1 e2 upt_block
    by (simp only: map_append append_assoc)
  then show ?case by (simp only: w0_def C_def)
qed

lemma ps_weights_const:
  assumes wf: "wf_sampleData sd"
    and const: "\<forall>row \<in> set (grid sd). \<forall>x \<in> set row. x = b"
    and b: "b \<le> 1"
  shows "ps_weights sd =
     Inr (real (gridRows sd * gridCols sd) * ((1 - b) powr 1.8 + 0.02),
          map (\<lambda>k. real (Suc k) * ((1 - b) powr 1.8 + 0.02)) [0..<gridRows sd * gridCols sd])"
  unfolding ps_weights_def ps_rows_const [OF wf const b order_refl]
  by simp

lemma white10_weights:
  "ps_weights white10 = Inr (2, map (\<lambda>k. real (Suc k) / 50) [0..<100])"
proof -
  have wf: "wf_sampleData white10"
    by (simp add: wf_sampleData_def wf_grid_def white10_def)
  have w: "\<forall>row \<in> set (grid white10). \<forall>x \<in> set row. x = 1"
    by (simp add: white10_def)
  have g: "gridRows white10 * gridCols white10 = 100" by (simp add: white10_def)
  show ?thesis
    unfolding ps_weights_const [OF wf w order_refl] g by simp
qed

section \<open>The rounds of Particle Scatter\<close>

lemma scaled_in_range:
  fixes w k n :: real
  assumes w: "0 < w" and k: "0 \<le> k" "k \<le> n" and n: "0 < n"
  shows "0 \<le> k * (w / n) \<and> k * (w / n) \<le> w"
proof -
  have e: "k * (w / n) = (k / n) * w" by simp
  have "0 \<le> k / n" using k n by simp
  moreover have "k / n \<le> 1" using k n by (simp add: divide_le_eq_1_pos)
  ultimately have "0 \<le> (k / n) * w \<and> (k / n) * w \<le> 1 * w"
    using w by (intro conjI mult_nonneg_nonneg mult_right_mono) simp_all
  then show ?thesis by (simp only: e mult_1)
qed

lemma unit_quotient:
  fixes x w :: real
  shows "0 < w \<Longrightarrow> 0 \<le> x \<Longrightarrow> x \<le> w \<Longrightarrow> 0 \<le> x / w \<and> x / w \<le> 1"
  by (simp add: divide_le_eq_1_pos)

lemma ps_particle_Some:
  assumes "ps_particle sd m w h weights totalWeight s = Inr (Some (x, y, baseR, ph), s')"
  shows "0 \<le> x \<and> x \<le> w \<and> 0 \<le> y \<and> y \<le> h \<and> w \<noteq> 0 \<and> h \<noteq> 0
     \<and> (\<exists>d r4. darknessAt sd (x / w) (y / h) = Inr d
           \<and> baseR = lerp (min (ps_minRadius m) (ps_maxRadius m))
                        (max (ps_minRadius m) (ps_maxRadius m)) (d * (0.3 + r4 * 0.7))
           \<and> \<not> baseR < 0.15)"
  using assms unfolding ps_particle_def Let_def
  by (auto split: prod.splits if_splits sum.splits simp: not_less)

lemma ps_particle_total:
  assumes wf: "wf_sampleData sd" and w: "0 < w" and h: "0 < h"
  shows "\<exists>out s'. ps_particle sd m w h weights totalWeight s = Inr (out, s')"
proof -
  obtain r1 s1 where 1: "mulberry32_next s = (r1, s1)" by (cases "mulberry32_next s")
  obtain r2 s2 where 2: "mulberry32_next s1 = (r2, s2)" by (cases "mulberry32_next s1")
  obtain r3 s3 where 3: "mulberry32_next s2 = (r3, s3)" by (cases "mulberry32_next s2")
  obtain r4 s4 where 4: "mulberry32_next s3 = (r4, s4)" by (cases "mulberry32_next s3")
  obtain r5 s5 where 5: "mulberry32_next s4 = (r5, s5)" by (cases "mulberry32_next s4")
  define x where "x = (real (pickCell weights (r1 * totalWeight) 0 (length weights - 1) mod gridCols sd)
      + 0.5 + (r2 - 0.5) * (1 + ps_scatter m)) * (w / real (gridCols sd))"
  define y where "y = (real (pickCell weights (r1 * totalWeight) 0 (length weights - 1) div gridCols sd)
      + 0.5 + (r3 - 0.5) * (1 + ps_scatter m)) * (h / real (gridRows sd))"
  have nz: "(w = 0) = False" "(h = 0) = False" using w h by simp_all
  show ?thesis
  proof (cases "x < 0 \<or> x > w \<or> y < 0 \<or> y > h")
    case True
    then have "ps_particle sd m w h weights totalWeight s = Inr (None, s3)"
      unfolding ps_particle_def Let_def x_def y_def
      by (simp only: 1 2 3 prod.case if_True)
    then show ?thesis by blast
  next
    case False
    then have "0 \<le> x / w \<and> x / w \<le> 1" "0 \<le> y / h \<and> y / h \<le> 1"
      using unit_quotient [OF w, of x] unit_quotient [OF h, of y] by (simp_all add: not_less)
    then obtain d where d: "darknessAt sd (x / w) (y / h) = Inr d"
      using darknessAt_wf [OF wf, of "x / w" "y / h"] by blast
    from False have F: "(x < 0 \<or> x > w \<or> y < 0 \<or> y > h) = False" by simp
    have "ps_particle sd m w h weights totalWeight s =
        (if lerp (min (ps_minRadius m) (ps_maxRadius m)) (max (ps_minRadius m) (ps_maxRadius m))
              (d * (0.3 + r4 * 0.7)) < 0.15
         then Inr (None, s4)
         else Inr (Some (x, y, lerp (min (ps_minRadius m) (ps_maxRadius m))
                 (max (ps_minRadius m) (ps_maxRadius m)) (d * (0.3 + r4 * 0.7)), r5 * pi * 2), s5))"
      using F d unfolding ps_particle_def Let_def x_def y_def
      by (simp only: 1 2 3 4 5 prod.case if_False nz simp_thms sum.case)
    then show ?thesis by (auto split: if_splits)
  qed
qed

lemma rounds_total:
  assumes "\<And>s. \<exists>out s'. step s = Inr (out, s')"
  shows "\<exists>ps. rounds step n s = Inr ps"
proof (induction n arbitrary: s)
  case 0
  show ?case by simp
next
  case (Suc n)
  from assms [of s] obtain out s' where st: "step s = Inr (out, s')" by blast
  from Suc [of s'] obtain ps where "rounds step n s' = Inr ps" by blast
  with st show ?case by simp
qed

lemma rounds_all:
  assumes "\<And>s p s'. step s = Inr (Some p, s') \<Longrightarrow> P p"
  shows "rounds step n s = Inr ps \<Longrightarrow> \<forall>p \<in> set ps. P p"
proof (induction n arbitrary: s ps)
  case 0
  then show ?case by simp
next
  case (Suc n)
  from Suc.prems obtain out s' rest where st: "step s = Inr (out, s')"
    and rest: "rounds step n s' = Inr rest"
    and ps: "ps = (case out of None \<Rightarrow> [] | Some p \<Rightarrow> [p]) @ rest"
    by (auto split: sum.splits)
  from Suc.IH [OF rest] have "\<forall>p \<in> set rest. P p" .
  moreover have "\<forall>p \<in> set (case out of None \<Rightarrow> [] | Some p \<Rightarrow> [p]). P p"
    using assms st by (cases out) auto
  ultimately show ?case unfolding ps by auto
qed

lemma rounds_first:
  "step s = Inr (Some p, s') \<Longrightarrow> rounds step n s' = Inr rest
   \<Longrightarrow> rounds step (Suc n) s = Inr (p # rest)"
  by simp

subsection \<open>The first round on the white grid\<close>

lemmas mb_defs = mulberry32_next_def mulberry32_def bor_def bxor_def imul_def ushr_def
  toInt32_def toUint32_def Let_def

lemma seed42: "mulberry32 (truncToInt 42) = 42"
  by (simp add: truncToInt_def mulberry32_def bor_def toInt32_def)

lemma mb1: "mulberry32_next 42 = (2581720956 / 4294967296, 1831565855)"
  by (simp add: mb_defs)

lemma mb2: "mulberry32_next 1831565855 = (1925393290 / 4294967296, - 631835628)"
  by (simp add: mb_defs)

lemma mb3: "mulberry32_next (- 631835628) = (3661312704 / 4294967296, 1199730185)"
  by (simp add: mb_defs)

lemma mb4: "mulberry32_next 1199730185 = (2876485805 / 4294967296, - 1263671298)"
  by (simp add: mb_defs)

lemma mb5: "mulberry32_next (- 1263671298) = (750819978 / 4294967296, 567894515)"
  by (simp add: mb_defs)

lemma white_nth: "k < 100 \<Longrightarrow> map (\<lambda>k. real (Suc k) / 50) [0..<100] ! k = real (Suc k) / 50"
  by simp

lemma pick1:
  "pickCell (map (\<lambda>k. real (Suc k) / 50) [0..<100]) (2581720956 / 4294967296 * 2) 0 99 = 60"
  apply (subst pickCell.simps, simp add: Let_def white_nth)
  apply (subst pickCell.simps, simp add: Let_def white_nth)
  apply (subst pickCell.simps, simp add: Let_def white_nth)
  apply (subst pickCell.simps, simp add: Let_def white_nth)
  apply (subst pickCell.simps, simp add: Let_def white_nth)
  apply (subst pickCell.simps, simp add: Let_def white_nth)
  apply (subst pickCell.simps, simp add: Let_def white_nth)
  apply (subst pickCell.simps, simp add: Let_def white_nth)
  done

lemma ps_particle_emit:
  assumes rnd: "mulberry32_next s0 = (r1, s1)" "mulberry32_next s1 = (r2, s2)"
    "mulberry32_next s2 = (r3, s3)" "mulberry32_next s3 = (r4, s4)"
    "mulberry32_next s4 = (r5, s5)"
    and pick: "pickCell weights (r1 * totalWeight) 0 (length weights - 1) = cellIndex"
    and xr: "0 \<le> (real (cellIndex mod gridCols sd) + 0.5 + (r2 - 0.5) * (1 + ps_scatter m))
              * (w / real (gridCols sd))"
          "(real (cellIndex mod gridCols sd) + 0.5 + (r2 - 0.5) * (1 + ps_scatter m))
              * (w / real (gridCols sd)) \<le> w"
    and yr: "0 \<le> (real (cellIndex div gridCols sd) + 0.5 + (r3 - 0.5) * (1 + ps_scatter m))
              * (h / real (gridRows sd))"
          "(real (cellIndex div gridCols sd) + 0.5 + (r3 - 0.5) * (1 + ps_scatter m))
              * (h / real (gridRows sd)) \<le> h"
    and nz: "w \<noteq> 0" "h \<noteq> 0"
    and dk: "darknessAt sd
              ((real (cellIndex mod gridCols sd) + 0.5 + (r2 - 0.5) * (1 + ps_scatter m))
                * (w / real (gridCols sd)) / w)
              ((real (cellIndex div gridCols sd) + 0.5 + (r3 - 0.5) * (1 + ps_scatter m))
                * (h / real (gridRows sd)) / h) = Inr d"
    and big: "\<not> lerp (min (ps_minRadius m) (ps_maxRadius m)) (max (ps_minRadius m) (ps_maxRadius m))
                   (d * (0.3 + r4 * 0.7)) < 0.15"
  shows "ps_particle sd m w h weights totalWeight s0
     = Inr (Some ((real (cellIndex mod gridCols sd) + 0.5 + (r2 - 0.5) * (1 + ps_scatter m))
                    * (w / real (gridCols sd)),
                  (real (cellIndex div gridCols sd) + 0.5 + (r3 - 0.5) * (1 + ps_scatter m))
                    * (h / real (gridRows sd)),
                  lerp (min (ps_minRadius m) (ps_maxRadius m)) (max (ps_minRadius m) (ps_maxRadius m))
                   (d * (0.3 + r4 * 0.7)),
                  r5 * pi * 2), s5)"
proof -
  have f: "((real (cellIndex mod gridCols sd) + 0.5 + (r2 - 0.5) * (1 + ps_scatter m))
              * (w / real (gridCols sd)) < 0) = False"
     "((real (cellIndex mod gridCols sd) + 0.5 + (r2 - 0.5) * (1 + ps_scatter m))
              * (w / real (gridCols sd)) > w) = False"
     "((real (cellIndex div gridCols sd) + 0.5 + (r3 - 0.5) * (1 + ps_scatter m))
              * (h / real (gridRows sd)) < 0) = False"
     "((real (cellIndex div gridCols sd) + 0.5 + (r3 - 0.5) * (1 + ps_scatter m))
              * (h / real (gridRows sd)) > h) = False"
     "(w = 0) = False" "(h = 0) = False"
    using xr yr nz by (simp_all only: not_less [symmetric] simp_thms)
  have g: "(lerp (min (ps_minRadius m) (ps_maxRadius m)) (max (ps_minRadius m) (ps_maxRadius m))
                   (d * (0.3 + r4 * 0.7)) < 0.15) = False"
    using big by (simp only: simp_thms)
  show ?thesis
    unfolding ps_particle_def Let_def
    by (simp only: rnd pick prod.case f simp_thms if_False dk sum.case g)
qed

lemma white10_round1:
  assumes w: "0 < w" and h: "0 < h"
  shows "ps_particle white10 ps_getDefaultParams w h (map (\<lambda>k. real (Suc k) / 50) [0..<100]) 2 42
     = Inr (Some ((0 + 0.5 + (1925393290 / 4294967296 - 0.5) * (1 + 1.0)) * (w / 10),
                  (6 + 0.5 + (3661312704 / 4294967296 - 0.5) * (1 + 1.0)) * (h / 10),
                  0.5, 750819978 / 4294967296 * pi * 2), 567894515)"
proof -
  define X :: real where "X = (0 + 0.5 + (1925393290 / 4294967296 - 0.5) * (1 + 1.0)) * (w / 10)"
  define Y :: real where "Y = (6 + 0.5 + (3661312704 / 4294967296 - 0.5) * (1 + 1.0)) * (h / 10)"
  have wf: "wf_sampleData white10"
    by (simp add: wf_sampleData_def wf_grid_def white10_def)
  have wh: "\<forall>row \<in> set (grid white10). \<forall>x \<in> set row. x = 1"
    by (simp add: white10_def)
  have xr: "0 \<le> X \<and> X \<le> w"
    unfolding X_def by (rule scaled_in_range [OF w]) simp_all
  have yr: "0 \<le> Y \<and> Y \<le> h"
    unfolding Y_def by (rule scaled_in_range [OF h]) simp_all
  have d: "darknessAt white10 (X / w) (Y / h) = Inr (1 - 1)"
    using unit_quotient [OF w, of X] unit_quotient [OF h, of Y] xr yr
    by (intro darknessAt_const [OF wf wh]) simp_all
  have ex: "(real (60 mod gridCols white10) + 0.5
                + (1925393290 / 4294967296 - 0.5) * (1 + ps_scatter ps_getDefaultParams))
              * (w / real (gridCols white10)) = X"
    by (simp add: X_def white10_def ps_getDefaultParams_def)
  have ey: "(real (60 div gridCols white10) + 0.5
                + (3661312704 / 4294967296 - 0.5) * (1 + ps_scatter ps_getDefaultParams))
              * (h / real (gridRows white10)) = Y"
    by (simp add: Y_def white10_def ps_getDefaultParams_def)
  have eb: "lerp (min (ps_minRadius ps_getDefaultParams) (ps_maxRadius ps_getDefaultParams))
                  (max (ps_minRadius ps_getDefaultParams) (ps_maxRadius ps_getDefaultParams))
                  ((1 - 1) * (0.3 + 2876485805 / 4294967296 * 0.7)) = 0.5"
    by (simp add: lerp_def ps_getDefaultParams_def)
  have pk: "pickCell (map (\<lambda>k. real (Suc k) / 50) [0..<100]) (2581720956 / 4294967296 * 2) 0
            (length (map (\<lambda>k. real (Suc k) / 50) [0..<100]) - 1) = 60"
    using pick1 by simp
  have "ps_particle white10 ps_getDefaultParams w h (map (\<lambda>k. real (Suc k) / 50) [0..<100]) 2 42
     = Inr (Some (X, Y, 0.5, 750819978 / 4294967296 * pi * 2), 567894515)"
    using ps_particle_emit [OF mb1 mb2 mb3 mb4 mb5 pk, of white10 ps_getDefaultParams w h "1 - 1",
        unfolded ex ey eb] xr yr w h d
    by simp
  then show ?thesis unfolding X_def Y_def .
qed

section \<open>Particle Scatter on the white grid\<close>

lemma ps_dot_total:
  assumes wf: "wf_sampleData sd" and w: "0 < w" and h: "0 < h"
  shows "\<exists>out s'. ps_dot sd m w h weights totalWeight s = Inr (out, s')"
proof -
  from ps_particle_total [OF wf w h, of m weights totalWeight s]
  obtain out s' where "ps_particle sd m w h weights totalWeight s = Inr (out, s')" by blast
  then show ?thesis
    by (cases out) (auto simp: ps_dot_def Let_def split: prod.splits)
qed

lemma lerp_same: "lerp a a t = a"
  by (simp add: lerp_def)

lemma lerp_zero: "lerp a b 0 = a"
  by (simp add: lerp_def)

lemma ps_dot_white:
  assumes wf: "wf_sampleData sd"
    and white: "\<forall>row \<in> set (grid sd). \<forall>x \<in> set row. x = 1"
    and dot: "ps_dot sd m w h weights totalWeight s = Inr (Some p, s')"
  shows "\<exists>x y. p = Circle x y (min (ps_minRadius m) (ps_maxRadius m))"
proof -
  from dot obtain x y baseR ph where
    part: "ps_particle sd m w h weights totalWeight s = Inr (Some (x, y, baseR, ph), s')"
    and p: "p = Circle x y (lerp (min (ps_minRadius m) (ps_maxRadius m)) baseR (0.5 + 0.5 * sin ph))"
    by (auto simp: ps_dot_def Let_def split: sum.splits prod.splits option.splits if_splits)
  from ps_particle_Some [OF part] obtain d r4 where
    r: "0 \<le> x" "x \<le> w" "0 \<le> y" "y \<le> h" "w \<noteq> 0" "h \<noteq> 0"
    and d: "darknessAt sd (x / w) (y / h) = Inr d"
    and b: "baseR = lerp (min (ps_minRadius m) (ps_maxRadius m))
                      (max (ps_minRadius m) (ps_maxRadius m)) (d * (0.3 + r4 * 0.7))"
    by blast
  from r have w: "0 < w" and h: "0 < h" by linarith+
  have "darknessAt sd (x / w) (y / h) = Inr (1 - 1)"
    using unit_quotient [OF w r(1,2)] unit_quotient [OF h r(3,4)]
    by (intro darknessAt_const [OF wf white]) simp_all
  with d have "d = 0" by simp
  with b have "baseR = min (ps_minRadius m) (ps_maxRadius m)" by (simp add: lerp_zero)
  with p show ?thesis by (simp add: lerp_same)
qed

lemma white10_dot1:
  assumes w: "0 < w" and h: "0 < h"
  shows "ps_dot white10 ps_getDefaultParams w h (map (\<lambda>k. real (Suc k) / 50) [0..<100]) 2 42
     = Inr (Some (Circle ((0 + 0.5 + (1925393290 / 4294967296 - 0.5) * (1 + 1.0)) * (w / 10))
                         ((6 + 0.5 + (3661312704 / 4294967296 - 0.5) * (1 + 1.0)) * (h / 10))
                         0.5), 567894515)"
  unfolding ps_dot_def Let_def white10_round1 [OF w h]
  by (simp add: ps_getDefaultParams_def lerp_same)

lemma ps_none_merge: "ps_merge ps_getDefaultParams ps_none = ps_getDefaultParams"
  by (simp add: ps_merge_def ps_none_def override_def)

lemma dotCount_default: "nat (max 1 (round (ps_maxDots ps_getDefaultParams))) = Suc 5999"
  by (simp add: ps_getDefaultParams_def)

lemma seed_default: "mulberry32 (truncToInt (ps_seed ps_getDefaultParams)) = 42"
  by (simp add: ps_getDefaultParams_def seed42)

lemma white10_generate:
  assumes w: "0 < w" and h: "0 < h"
  shows "\<exists>rest. ps_generate white10 ps_none w h =
     Inr \<lparr> colour = ''#000000'',
           prims = Circle ((0 + 0.5 + (1925393290 / 4294967296 - 0.5) * (1 + 1.0)) * (w / 10))
                          ((6 + 0.5 + (3661312704 / 4294967296 - 0.5) * (1 + 1.0)) * (h / 10))
                          0.5 # rest \<rparr>
     \<and> (\<forall>p \<in> set rest. \<exists>x y. p = Circle x y (1/2))"
proof -
  let ?W = "map (\<lambda>k. real (Suc k) / 50) [0..<100]"
  let ?step = "ps_dot white10 ps_getDefaultParams w h ?W 2"
  from rounds_total [of ?step 5999 567894515] ps_dot_total [OF white10_wf w h]
  obtain rest where rest: "rounds ?step 5999 567894515 = Inr rest" by blast
  have "\<forall>p \<in> set rest. \<exists>x y. p = Circle x y (min (ps_minRadius ps_getDefaultParams) (ps_maxRadius ps_getDefaultParams))"
    by (rule rounds_all [OF _ rest]) (rule ps_dot_white [OF white10_wf white10_white])
  then have all: "\<forall>p \<in> set rest. \<exists>x y. p = Circle x y (1/2)"
    by (simp add: ps_getDefaultParams_def)
  have col: "ps_color ps_getDefaultParams = ''#000000''" by (simp add: ps_getDefaultParams_def)
  have "ps_generate white10 ps_none w h =
     Inr \<lparr> colour = ''#000000'',
           prims = Circle ((0 + 0.5 + (1925393290 / 4294967296 - 0.5) * (1 + 1.0)) * (w / 10))
                          ((6 + 0.5 + (3661312704 / 4294967296 - 0.5) * (1 + 1.0)) * (h / 10))
                          0.5 # rest \<rparr>"
    unfolding ps_generate_def Let_def ps_none_merge white10_weights dotCount_default seed_default
      sum.case prod.case rounds_first [OF white10_dot1 [OF w h] rest] col
    by simp
  with all show ?thesis by blast
qed


text \<open>
  Claim C9.  On the \<open>10 \<times> 10\<close> grid of brightness \<open>1\<close>, with the default parameters
  and any positive output size, the cumulative weight table has a positive total (each
  cell weighs \<open>0.02\<close>, the total is \<open>2\<close>), the static Particle Scatter generator
  returns, and what it draws is not empty: every dot is a circle of the minimum radius
  \<open>0.5\<close>, which passes the size cut at \<open>0.15\<close>.
\<close>

theorem ps_generate_white_nonempty:
  assumes w: "0 < w" and h: "0 < h"
  shows "\<exists>totalWeight weights pic.
          ps_weights white10 = Inr (totalWeight, weights) \<and> 0 < totalWeight
          \<and> ps_generate white10 ps_none w h = Inr pic
          \<and> prims pic \<noteq> []
          \<and> (\<forall>p \<in> set (prims pic). \<exists>x y. p = Circle x y (1/2))"
proof -
  from white10_generate [OF w h] obtain rest where
    g: "ps_generate white10 ps_none w h =
     Inr \<lparr> colour = ''#000000'',
           prims = Circle ((0 + 0.5 + (1925393290 / 4294967296 - 0.5) * (1 + 1.0)) * (w / 10))
                          ((6 + 0.5 + (3661312704 / 4294967296 - 0.5) * (1 + 1.0)) * (h / 10))
                          0.5 # rest \<rparr>"
    and all: "\<forall>p \<in> set rest. \<exists>x y. p = Circle x y (1/2)" by blast
  have "ps_weights white10 = Inr (2, map (\<lambda>k. real (Suc k) / 50) [0..<100]) \<and> (0 :: real) < 2"
    by (simp add: white10_weights)
  moreover have "prims \<lparr> colour = ''#000000'',
           prims = Circle ((0 + 0.5 + (1925393290 / 4294967296 - 0.5) * (1 + 1.0)) * (w / 10))
                          ((6 + 0.5 + (3661312704 / 4294967296 - 0.5) * (1 + 1.0)) * (h / 10))
                          0.5 # rest \<rparr> \<noteq> []" by simp
  moreover have "\<forall>p \<in> set (prims \<lparr> colour = ''#000000'',
           prims = Circle ((0 + 0.5 + (1925393290 / 4294967296 - 0.5) * (1 + 1.0)) * (w / 10))
                          ((6 + 0.5 + (3661312704 / 4294967296 - 0.5) * (1 + 1.0)) * (h / 10))
                          0.5 # rest \<rparr>). \<exists>x y. p = Circle x y (1/2)"
  proof -
    have "(0.5 :: real) = 1/2" by simp
    then have "\<exists>x y. Circle ((0 + 0.5 + (1925393290 / 4294967296 - 0.5) * (1 + 1.0)) * (w / 10))
                          ((6 + 0.5 + (3661312704 / 4294967296 - 0.5) * (1 + 1.0)) * (h / 10))
                          0.5 = Circle x y (1/2)"
      by (simp only: prim.inject) blast
    with all show ?thesis by (simp only: picture.simps set_simps ball_simps simp_thms)
  qed
  ultimately show ?thesis using g by blast
qed

theorem ps_generate_white_nonempty_witness:
  "(0 :: real) < 1000
   \<and> \<not> isl (ps_generate white10 ps_none 1000 1000)
   \<and> prims (projr (ps_generate white10 ps_none 1000 1000)) \<noteq> []"
proof -
  have p: "(0 :: real) < 1000" by simp
  from ps_generate_white_nonempty [OF p p] obtain pic where
    "ps_generate white10 ps_none 1000 1000 = Inr pic" "prims pic \<noteq> []" by blast
  then show ?thesis by simp
qed

lemma white10_dark0:
  "darknessAt white10
     ((0 + 0.5 + (1925393290 / 4294967296 - 0.5) * (1 + 1.0)) * (1000 / 10) / 1000)
     ((6 + 0.5 + (3661312704 / 4294967296 - 0.5) * (1 + 1.0)) * (1000 / 10) / 1000) = Inr 0"
proof -
  have "darknessAt white10
     ((0 + 0.5 + (1925393290 / 4294967296 - 0.5) * (1 + 1.0)) * (1000 / 10) / 1000)
     ((6 + 0.5 + (3661312704 / 4294967296 - 0.5) * (1 + 1.0)) * (1000 / 10) / 1000) = Inr (1 - 1)"
    by (rule darknessAt_const [OF white10_wf white10_white]) simp_all
  then show ?thesis by simp
qed

text \<open>
  Particle Scatter on the white grid at \<open>1000 \<times> 1000\<close>: the first circle drawn sits
  at a point of darkness \<open>0\<close>, below \<open>0.3\<close>.
\<close>

theorem ps_generate_draws_at_darkness_zero:
  "map_sum id (\<lambda>pic. hd (prims pic)) (ps_generate white10 ps_none 1000 1000)
     = Inr (Circle ((0 + 0.5 + (1925393290 / 4294967296 - 0.5) * (1 + 1.0)) * (1000 / 10))
                   ((6 + 0.5 + (3661312704 / 4294967296 - 0.5) * (1 + 1.0)) * (1000 / 10))
                   0.5)
   \<and> darknessAt white10
        ((0 + 0.5 + (1925393290 / 4294967296 - 0.5) * (1 + 1.0)) * (1000 / 10) / 1000)
        ((6 + 0.5 + (3661312704 / 4294967296 - 0.5) * (1 + 1.0)) * (1000 / 10) / 1000) = Inr 0
   \<and> \<not> (0.3 :: real) \<le> 0"
proof -
  have p: "(0 :: real) < 1000" by simp
  from white10_generate [OF p p] obtain rest where
    g: "ps_generate white10 ps_none 1000 1000 =
     Inr \<lparr> colour = ''#000000'',
           prims = Circle ((0 + 0.5 + (1925393290 / 4294967296 - 0.5) * (1 + 1.0)) * (1000 / 10))
                          ((6 + 0.5 + (3661312704 / 4294967296 - 0.5) * (1 + 1.0)) * (1000 / 10))
                          0.5 # rest \<rparr>" by blast
  show ?thesis unfolding g white10_dark0 by simp
qed

section \<open>In-bounds sampling\<close>




subsection \<open>The call sites of the sampler\<close>




lemma whole_rows:
  "(\<And>n. rw = Some n \<Longrightarrow> n \<in> \<int>) \<Longrightarrow> (case rw of Some n \<Rightarrow> n | None \<Rightarrow> real k) \<in> \<int>"
  by (cases rw) simp_all






















section \<open>The static generators and the frame at time zero\<close>














end
